theory Spec2Isabelle
  imports Complex_Main "HOL-Library.Stream"
begin

section \<open>Strings, errors and the random source\<close>

text \<open>
  A Python \<open>str\<close> is a list of code points; it is modelled as a \<open>string\<close>, one \<open>char\<close> per
  code point, a \<open>char\<close> being the code point of its number. The programs only ever produce
  ASCII and the two blossom glyphs U+273F and U+2740, which stand here as the two
  characters \<open>0xF1\<close> and \<open>0xF2\<close>; other code points above 255 have no counterpart.
\<close>

abbreviation sp :: char where "sp \<equiv> CHR '' ''"
abbreviation bar :: char where "bar \<equiv> CHR ''|''"
abbreviation esc :: char where "esc \<equiv> CHR 0x1B"
abbreviation bsl :: char where "bsl \<equiv> CHR 0x5C"

definition blossom1 :: char where "blossom1 = CHR 0xF1"
definition blossom2 :: char where "blossom2 = CHR 0xF2"

datatype error = ValueError | IndexError | ZeroDivisionError

text \<open>\<open>s * n\<close> on a Python string: a count below one gives the empty string.\<close>

definition str_mul :: "string \<Rightarrow> int \<Rightarrow> string" where
  "str_mul s n = concat (replicate (nat n) s)"

definition spaces :: "int \<Rightarrow> string" where
  "spaces n = str_mul [sp] n"

text \<open>
  \<open>str.rstrip()\<close> removes the whitespace characters from the right end: of the code
  points below 256 these are the ASCII ones, U+0085 and U+00A0.
\<close>

definition is_space :: "char \<Rightarrow> bool" where
  "is_space c = (c = sp \<or> c = CHR 0x09 \<or> c = CHR 0x0A \<or> c = CHR 0x0B \<or> c = CHR 0x0C
     \<or> c = CHR 0x0D \<or> c = CHR 0x1C \<or> c = CHR 0x1D \<or> c = CHR 0x1E \<or> c = CHR 0x1F
     \<or> c = CHR 0x85 \<or> c = CHR 0xA0)"

definition rstrip :: "string \<Rightarrow> string" where
  "rstrip s = rev (dropWhile is_space (rev s))"

fun join :: "string \<Rightarrow> string list \<Rightarrow> string" where
  "join sep [] = []"
| "join sep [x] = x"
| "join sep (x # y # ys) = x @ sep @ join sep (y # ys)"

definition startswith :: "string \<Rightarrow> string \<Rightarrow> bool" where
  "startswith s p = (take (length p) s = p)"

definition endswith :: "string \<Rightarrow> string \<Rightarrow> bool" where
  "endswith s p = (length p \<le> length s \<and> drop (length s - length p) s = p)"

text \<open>
  The random source \<open>random.Random\<close> is a stream of raw draws: every call takes the next
  draw and maps it into the range asked for, so every sequence of results the generator
  can give is the behaviour of some stream. \<open>choice\<close> is only ever called on a non-empty
  literal list; \<open>randint\<close> raises \<open>ValueError\<close> on an empty range; \<open>random\<close> gives a
  multiple of \<open>2^-53\<close> in \<open>[0, 1)\<close>, as CPython does.
\<close>

type_synonym rng = "nat stream"

definition choice :: "'a list \<Rightarrow> rng \<Rightarrow> 'a \<times> rng" where
  "choice xs r = (xs ! (shd r mod length xs), stl r)"

definition randint :: "int \<Rightarrow> int \<Rightarrow> rng \<Rightarrow> error + (int \<times> rng)" where
  "randint a b r =
     (if b < a then Inl ValueError else Inr (a + int (shd r mod nat (b - a + 1)), stl r))"

definition random :: "rng \<Rightarrow> rat \<times> rng" where
  "random r = (of_nat (shd r mod 2 ^ 53) / 2 ^ 53, stl r)"

section \<open>Colour annotations\<close>

definition ANSI :: "(string \<times> string) list" where
  "ANSI =
    [(''reset'', esc # ''[0m''),
     (''red'', esc # ''[31m''),
     (''green'', esc # ''[32m''),
     (''yellow'', esc # ''[33m''),
     (''blue'', esc # ''[34m''),
     (''magenta'', esc # ''[35m''),
     (''cyan'', esc # ''[36m''),
     (''bright_yellow'', esc # ''[93m''),
     (''bright_green'', esc # ''[92m''),
     (''brown'', esc # ''[38;5;94m'')]"

text \<open>\<open>ANSI.get(color, '')\<close> and \<open>ANSI['reset']\<close>.\<close>

definition ansi_get :: "string \<Rightarrow> string" where
  "ansi_get color = (case map_of ANSI color of Some c \<Rightarrow> c | None \<Rightarrow> [])"

definition ansi_reset :: string where
  "ansi_reset = the (map_of ANSI ''reset'')"

definition color_wrap :: "string \<Rightarrow> string \<Rightarrow> bool \<Rightarrow> string" where
  "color_wrap s color enabled = (if \<not> enabled then s else ansi_get color @ s @ ansi_reset)"

text \<open>
  \<open>_strip_ansi\<close> is \<open>re.sub(r"\x1b\[[0-9;]*m", "", s)\<close>. \<open>match_ansi\<close> is a match of the
  pattern at the head of the string, giving the rest after the match: the parameter
  characters are taken greedily, and since \<open>m\<close> is none of them no shorter run can match.
  \<open>re.sub\<close> goes from left to right and resumes after each match.
\<close>

definition is_param :: "char \<Rightarrow> bool" where
  "is_param c = (c \<in> set ''0123456789;'')"

fun match_ansi :: "string \<Rightarrow> string option" where
  "match_ansi (e # b # rest) =
     (if e = esc \<and> b = CHR ''[''
      then (case dropWhile is_param rest of
              [] \<Rightarrow> None
            | m # rest' \<Rightarrow> if m = CHR ''m'' then Some rest' else None)
      else None)"
| "match_ansi _ = None"

lemma match_ansi_shorter: "match_ansi s = Some rest \<Longrightarrow> length rest < length s"
proof (cases s rule: match_ansi.cases)
  case (1 e b cs)
  assume m: "match_ansi s = Some rest"
  have "length (dropWhile is_param cs) \<le> length cs"
    by (rule length_dropWhile_le)
  with m 1 show ?thesis
    by (auto split: if_splits list.splits)
qed simp_all

function strip_ansi :: "string \<Rightarrow> string" where
  "strip_ansi [] = []"
| "strip_ansi (c # cs) =
     (case match_ansi (c # cs) of
        Some rest \<Rightarrow> strip_ansi rest
      | None \<Rightarrow> c # strip_ansi cs)"
  by pat_completeness auto
termination
proof (relation "measure length")
  show "wf (measure length)" by simp
next
  fix c cs rest
  assume "match_ansi (c # cs) = Some rest"
  then show "(rest, c # cs) \<in> measure length"
    using match_ansi_shorter by fastforce
next
  fix c :: char and cs :: string
  show "(cs, c # cs) \<in> measure length" by simp
qed

definition visible_len :: "string \<Rightarrow> nat" where
  "visible_len s = length (strip_ansi s)"

text \<open>The shape of an entry of the colour table, or the empty default.\<close>

definition is_code :: "string \<Rightarrow> bool" where
  "is_code s = (s = [] \<or> (\<exists>ps. s = esc # CHR ''['' # ps @ ''m'' \<and> list_all is_param ps))"

text \<open>A row that carries no colour annotation: stripping leaves it as it is.\<close>

definition plain :: "string \<Rightarrow> bool" where
  "plain row = (strip_ansi row = row)"

section \<open>The colorizer of flowers.py\<close>

text \<open>The colour name drawn for a foliage, petal or centre character.\<close>

definition foliage_color :: "string \<Rightarrow> rng \<Rightarrow> string \<times> rng" where
  "foliage_color plant_kind r =
     (if endswith plant_kind ''cherry'' \<or> startswith plant_kind ''flower_cherry''
      then choice [''magenta'', ''bright_yellow''] r
      else if startswith plant_kind ''flower_sunflower''
      then choice [''yellow'', ''bright_yellow''] r
      else if startswith plant_kind ''flower_''
      then choice [''bright_green'', ''green'', ''bright_yellow'', ''magenta'', ''red''] r
      else choice [''green'', ''bright_green''] r)"

text \<open>
  The \<open>while i < len(line)\<close> loop, on the part of the line from \<open>i\<close> on. At a bar the inner
  loop moves \<open>j\<close> over the run of bars; \<open>seg = line[i:j]\<close> is wrapped once.
\<close>

function colorize_line :: "string \<Rightarrow> string \<Rightarrow> rng \<Rightarrow> string \<times> rng" where
  "colorize_line plant_kind [] r = ([], r)"
| "colorize_line plant_kind (ch # rest) r =
     (if ch = sp then
        (let (out, r') = colorize_line plant_kind rest r in (ch # out, r'))
      else if ch = bar then
        (let seg = ch # takeWhile (\<lambda>c. c = bar) rest;
             (out, r') = colorize_line plant_kind (dropWhile (\<lambda>c. c = bar) rest) r
         in (if startswith plant_kind ''flower_''
             then color_wrap seg ''green'' True @ out
             else color_wrap seg ''brown'' True @ out, r'))
      else
        (let (c, r1) = foliage_color plant_kind r;
             (out, r') = colorize_line plant_kind rest r1
         in (color_wrap [ch] c True @ out, r')))"
  by pat_completeness auto
termination
proof (relation "measure (\<lambda>(k, line, r). length line)")
  show "wf (measure (\<lambda>(k :: string, line :: string, r :: rng). length line))" by simp
next
  fix plant_kind :: string and ch :: char and rest :: string and r :: rng
  show "((plant_kind, rest, r), plant_kind, ch # rest, r) \<in> measure (\<lambda>(k, line, r). length line)"
    by simp
next
  fix plant_kind :: string and ch :: char and rest :: string and r :: rng and seg :: string
  have "length (dropWhile (\<lambda>c. c = bar) rest) \<le> length rest"
    by (rule length_dropWhile_le)
  then show "((plant_kind, dropWhile (\<lambda>c. c = bar) rest, r), plant_kind, ch # rest, r)
      \<in> measure (\<lambda>(k, line, r). length line)"
    by simp
next
  fix plant_kind :: string and ch :: char and rest :: string and r :: rng
    and x :: "string \<times> rng" and c :: string and r1 :: rng
  show "((plant_kind, rest, r1), plant_kind, ch # rest, r) \<in> measure (\<lambda>(k, line, r). length line)"
    by simp
qed

fun colorize_rows :: "string \<Rightarrow> string list \<Rightarrow> rng \<Rightarrow> string list \<times> rng" where
  "colorize_rows plant_kind [] r = ([], r)"
| "colorize_rows plant_kind (line # lines) r =
     (let (out, r1) = colorize_line plant_kind line r;
          (outs, r2) = colorize_rows plant_kind lines r1
      in (out # outs, r2))"

definition colorize_lines :: "string list \<Rightarrow> string \<Rightarrow> bool \<Rightarrow> rng \<Rightarrow> string list \<times> rng" where
  "colorize_lines lines plant_kind enabled r =
     (if \<not> enabled then (lines, r) else colorize_rows plant_kind lines r)"

section \<open>The colorizer of garden.py\<close>

text \<open>Every character but the space is wrapped on its own; there is no case for bars.\<close>

definition g_char_color :: "string \<Rightarrow> rng \<Rightarrow> string \<times> rng" where
  "g_char_color plant_kind r =
     (if endswith plant_kind ''cherry'' \<or> startswith plant_kind ''flower_cherry''
      then choice [''magenta'', ''bright_yellow''] r
      else if startswith plant_kind ''flower_sunflower''
      then choice [''yellow'', ''bright_yellow''] r
      else if startswith plant_kind ''flower_''
      then choice [''bright_green'', ''green'', ''bright_yellow'', ''magenta'', ''red''] r
      else if endswith plant_kind ''bonsai'' \<or> startswith plant_kind ''tree_bonsai''
      then (''bright_green'', r)
      else choice [''green'', ''bright_green''] r)"

fun g_colorize_line :: "string \<Rightarrow> string \<Rightarrow> rng \<Rightarrow> string \<times> rng" where
  "g_colorize_line plant_kind [] r = ([], r)"
| "g_colorize_line plant_kind (ch # rest) r =
     (if ch = sp then
        (let (out, r') = g_colorize_line plant_kind rest r in (ch # out, r'))
      else
        (let (c, r1) = g_char_color plant_kind r;
             (out, r') = g_colorize_line plant_kind rest r1
         in (color_wrap [ch] c True @ out, r')))"

fun g_colorize_rows :: "string \<Rightarrow> string list \<Rightarrow> rng \<Rightarrow> string list \<times> rng" where
  "g_colorize_rows plant_kind [] r = ([], r)"
| "g_colorize_rows plant_kind (line # lines) r =
     (let (out, r1) = g_colorize_line plant_kind line r;
          (outs, r2) = g_colorize_rows plant_kind lines r1
      in (out # outs, r2))"

definition g_colorize_lines :: "string list \<Rightarrow> string \<Rightarrow> bool \<Rightarrow> rng \<Rightarrow> string list \<times> rng" where
  "g_colorize_lines lines plant_kind enabled r =
     (if \<not> enabled then (lines, r) else g_colorize_rows plant_kind lines r)"

text \<open>The colour that flowers.py gives a run of bars: green for a flower, brown otherwise.\<close>

definition stem_color :: "string \<Rightarrow> string" where
  "stem_color plant_kind = (if startswith plant_kind ''flower_'' then ''green'' else ''brown'')"

section \<open>Horizontal layout\<close>

text \<open>\<open>max(xs, default=d)\<close>.\<close>

definition max_default :: "'a::linorder \<Rightarrow> 'a list \<Rightarrow> 'a" where
  "max_default d xs = (case xs of [] \<Rightarrow> d | x # rest \<Rightarrow> fold max rest x)"

text \<open>The entry of \<open>widths\<close> for a plant: \<open>max((_visible_len(ln) for ln in p), default=0)\<close>.\<close>

definition plant_width :: "string list \<Rightarrow> int" where
  "plant_width p = max_default 0 (map (\<lambda>ln. int (visible_len ln)) p)"

text \<open>\<open>max(heights) if heights else 0\<close>.\<close>

definition max_height :: "string list list \<Rightarrow> int" where
  "max_height row = (if row = [] then 0 else max_default 0 (map (\<lambda>p. int (length p)) row))"

text \<open>
  The body of the loop over the plants of a row in flowers.py: \<open>pad_top\<close> blank lines of
  the plant's width first, then the plant's lines, each padded to the width.
\<close>

definition pad_plant :: "int \<Rightarrow> string list \<Rightarrow> string list" where
  "pad_plant max_h p =
     (let w = plant_width p;
          pad_top = max_h - int (length p)
      in replicate (nat pad_top) (spaces w)
         @ map (\<lambda>ln. ln @ spaces (w - int (visible_len ln))) p)"

text \<open>
  The same loop body in garden.py: the plant's lines first, then blank lines until the
  block has \<open>max_h\<close> lines.
\<close>

definition g_pad_plant :: "int \<Rightarrow> string list \<Rightarrow> string list" where
  "g_pad_plant max_h p =
     (let w = plant_width p;
          new_lines = map (\<lambda>ln. ln @ spaces (w - int (visible_len ln))) p
      in new_lines @ replicate (nat (max_h - int (length new_lines))) (spaces w))"

text \<open>
  The lines of one row of plants: line \<open>r\<close> joins \<open>padded[c][r]\<close> over the columns, and a
  blank line ends the row. Every padded block has \<open>max_h\<close> lines (lemmas
  \<open>length_pad_plant\<close> and \<open>length_g_pad_plant\<close>), so the index is in range.
\<close>

definition join_rows :: "int \<Rightarrow> int \<Rightarrow> string list list \<Rightarrow> string list" where
  "join_rows gap max_h padded =
     map (\<lambda>r. rstrip (join (spaces gap) (map (\<lambda>block. block ! r) padded))) [0..<nat max_h]
     @ [[]]"

definition render_row :: "int \<Rightarrow> string list list \<Rightarrow> string list" where
  "render_row gap row = join_rows gap (max_height row) (map (pad_plant (max_height row)) row)"

definition g_render_row :: "int \<Rightarrow> string list list \<Rightarrow> string list" where
  "g_render_row gap row = join_rows gap (max_height row) (map (g_pad_plant (max_height row)) row)"

text \<open>
  \<open>for row_start in range(0, len(plants), cols): row = plants[row_start: row_start + cols]\<close>.
  The step is at least 1 in the source; the case 0 is there for totality only.
\<close>

function row_groups :: "nat \<Rightarrow> 'a list \<Rightarrow> 'a list list" where
  "row_groups cols plants =
     (if cols = 0 \<or> plants = [] then []
      else take cols plants # row_groups cols (drop cols plants))"
  by pat_completeness auto
termination
  by (relation "measure (\<lambda>(cols, plants). length plants)") auto

definition render_horizontal :: "string list list \<Rightarrow> int \<Rightarrow> int \<Rightarrow> string list" where
  "render_horizontal plants cols gap =
     concat (map (render_row gap) (row_groups (nat (if cols < 1 then 1 else cols)) plants))"

definition g_render_horizontal :: "string list list \<Rightarrow> int \<Rightarrow> int \<Rightarrow> string list" where
  "g_render_horizontal plants cols gap =
     concat (map (g_render_row gap) (row_groups (nat (if cols < 1 then 1 else cols)) plants))"

section \<open>Printing the garden\<close>

text \<open>
  \<open>shutil.get_terminal_size(fallback=(80, 24)).columns\<close>: the width the environment
  reports, or 80 when it reports none.
\<close>

definition term_width :: "int option \<Rightarrow> int" where
  "term_width columns = (case columns of None \<Rightarrow> 80 | Some w \<Rightarrow> w)"

definition max_plant_width :: "string list list \<Rightarrow> int" where
  "max_plant_width plants = max_default 1 (map plant_width plants)"

text \<open>The column count of the auto-fit branch; \<open>//\<close> raises on a zero divisor.\<close>

definition auto_cols :: "string list list \<Rightarrow> int \<Rightarrow> int \<Rightarrow> error + int" where
  "auto_cols plants term_w gap =
     (let max_w = max_plant_width plants
      in if max_w + gap = 0 then Inl ZeroDivisionError
         else Inr (max 1 ((term_w + gap) div (max_w + gap))))"

fun vertical_lines :: "string list list \<Rightarrow> int \<Rightarrow> string list" where
  "vertical_lines [] gap = []"
| "vertical_lines [p] gap = p"
| "vertical_lines (p # q # ps) gap = p @ replicate (nat gap) [] @ vertical_lines (q # ps) gap"

text \<open>What is written to standard output: the lines joined by newlines, and a newline.\<close>

definition written :: "string list \<Rightarrow> string" where
  "written lines = join [CHR 0x0A] lines @ [CHR 0x0A]"

definition print_garden ::
  "string list list \<Rightarrow> string \<Rightarrow> int \<Rightarrow> int \<Rightarrow> bool \<Rightarrow> int option \<Rightarrow> error + string" where
  "print_garden plants layout cols gap auto_fit columns =
     (if layout = ''horizontal'' then
        (if auto_fit then
           (case auto_cols plants (term_width columns) gap of
              Inl e \<Rightarrow> Inl e
            | Inr cols' \<Rightarrow> Inr (written (render_horizontal plants cols' (gap * 2))))
         else Inr (written (render_horizontal plants cols (gap * 2))))
      else Inr (written (vertical_lines plants gap)))"

definition g_print_garden ::
  "string list list \<Rightarrow> string \<Rightarrow> int \<Rightarrow> int \<Rightarrow> bool \<Rightarrow> int option \<Rightarrow> error + string" where
  "g_print_garden plants layout cols gap auto_fit columns =
     (if layout = ''horizontal'' then
        (if auto_fit then
           (case auto_cols plants (term_width columns) gap of
              Inl e \<Rightarrow> Inl e
            | Inr cols' \<Rightarrow> Inr (written (g_render_horizontal plants cols' (gap * 2))))
         else Inr (written (g_render_horizontal plants cols (gap * 2))))
      else Inr (written (vertical_lines plants gap)))"

section \<open>Shape generators of flowers.py\<close>

definition PETAL_CHARS :: string where "PETAL_CHARS = ''*o@O0+xX''"
definition CENTER_CHARS :: string where "CENTER_CHARS = ''@*O.''"
definition STEM_CHAR :: char where "STEM_CHAR = bar"

text \<open>The parameter \<open>size\<close> of the generators is written \<open>sz\<close>.\<close>

text \<open>
  The two nested loops of the round flower, over the columns \<open>x\<close> of a row and over the
  rows \<open>y\<close>; each cell takes one draw. The floats are rationals here and the arithmetic is
  exact: neither the rounding of a double nor the \<open>OverflowError\<close> of a size beyond the
  range of a double is modelled, so a cell whose draw puts it on the very edge of the
  circle can differ from the code's.
\<close>

fun round_row :: "int \<Rightarrow> int \<Rightarrow> char \<Rightarrow> char \<Rightarrow> int list \<Rightarrow> rng \<Rightarrow> string \<times> rng" where
  "round_row radius y petal center [] r = ([], r)"
| "round_row radius y petal center (x # xs) r =
     (let dx = rat_of_int x / 2;
          d2 = dx * dx + rat_of_int (y * y);
          (u, r1) = random r;
          noise = u * (6 / 10);
          cell = (if d2 \<le> (rat_of_int radius + 1 / 4 - noise) ^ 2
                  then (if \<bar>x\<bar> \<le> 1 \<and> \<bar>y\<bar> \<le> 1 then center else petal)
                  else sp);
          (row, r2) = round_row radius y petal center xs r1
      in (cell # row, r2))"

fun round_rows :: "int \<Rightarrow> char \<Rightarrow> char \<Rightarrow> int list \<Rightarrow> rng \<Rightarrow> string list \<times> rng" where
  "round_rows radius petal center [] r = ([], r)"
| "round_rows radius petal center (y # ys) r =
     (let (row, r1) = round_row radius y petal center [- 2 * radius .. 2 * radius] r;
          (rows, r2) = round_rows radius petal center ys r1
      in (rstrip row # rows, r2))"

definition make_round_flower :: "int \<Rightarrow> rng \<Rightarrow> error + (string list \<times> rng)" where
  "make_round_flower sz r =
     (let radius = 1 + sz;
          (petal, r1) = choice PETAL_CHARS r;
          (center, r2) = choice CENTER_CHARS r1;
          (lines, r3) = round_rows radius petal center [- radius .. radius] r2
      in case randint (1 + sz) (2 + 2 * sz) r3 of
           Inl e \<Rightarrow> Inl e
         | Inr (stem_height, r4) \<Rightarrow>
             (case lines of
                [] \<Rightarrow> Inl IndexError
              | row0 # _ \<Rightarrow>
                  (let stem_col = int (length row0) div 2
                   in Inr (lines @ replicate (nat stem_height) (spaces stem_col @ [STEM_CHAR]),
                           r4))))"

definition make_star_flower :: "int \<Rightarrow> rng \<Rightarrow> error + (string list \<times> rng)" where
  "make_star_flower sz r =
     (let (petal, r1) = choice PETAL_CHARS r;
          (center, r2) = choice CENTER_CHARS r1;
          s = sz;
          lines =
            [spaces (2 * s) @ [petal],
             spaces s @ [petal] @ spaces (2 * s - 1) @ [petal],
             [petal] @ spaces (4 * s - 1) @ [petal],
             spaces s @ [petal] @ spaces (2 * s - 1) @ [petal],
             spaces (2 * s) @ [center]]
      in case randint 0 s r2 of
           Inl e \<Rightarrow> Inl e
         | Inr (k, r3) \<Rightarrow>
             Inr (lines @ replicate (nat (1 + s + k)) (spaces (2 * s) @ [STEM_CHAR]), r3))"

definition make_tulip :: "int \<Rightarrow> rng \<Rightarrow> error + (string list \<times> rng)" where
  "make_tulip sz r =
     (let (petal, r1) = choice PETAL_CHARS r;
          (center, r2) = choice CENTER_CHARS r1;
          s = sz;
          lines =
            [spaces (1 + s) @ [petal] @ spaces s @ [petal],
             spaces s @ [petal] @ spaces (1 + s) @ [center] @ spaces s @ [petal],
             [petal] @ spaces (3 + s) @ [petal]];
          (leaves, r3) = choice [''<>'', [CHR ''/'', bsl], ''()'', ''~~''] r2;
          lines = lines @ [spaces (1 + s) @ leaves]
      in case randint 0 2 r3 of
           Inl e \<Rightarrow> Inl e
         | Inr (k, r4) \<Rightarrow>
             Inr (lines @ replicate (nat (1 + s + k)) (spaces (2 + s) @ [STEM_CHAR]), r4))"

definition make_sunflower :: "int \<Rightarrow> rng \<Rightarrow> error + (string list \<times> rng)" where
  "make_sunflower sz r =
     (let (petal, r1) = choice ''0O*@'' r;
          (center, r2) = choice ''@0O'' r1;
          s = sz;
          lines =
            [spaces (2 + s) @ str_mul [petal] (3 + s),
             spaces (1 + s) @ [petal] @ spaces (1 + s) @ [center] @ spaces (1 + s) @ [petal],
             [petal] @ spaces (3 + s) @ [petal]]
      in Inr (lines @ replicate (nat (2 + s)) (spaces (2 + s) @ [STEM_CHAR]), r2))"

text \<open>\<open>nt\<close> is \<open>os.name == "nt"\<close>.\<close>

definition make_cherry_flower :: "bool \<Rightarrow> int \<Rightarrow> rng \<Rightarrow> error + (string list \<times> rng)" where
  "make_cherry_flower nt sz r =
     (let (petal, r1) =
            (if \<not> nt then choice [CHR ''o'', blossom1, blossom2] r else choice ''o*'' r);
          (center, r2) = choice ''.@'' r1;
          s = sz;
          lines =
            [spaces (1 + s) @ [petal] @ '' '' @ [petal],
             spaces s @ [petal] @ [center] @ [petal],
             [petal] @ spaces (1 + s) @ [petal]]
      in Inr (lines @ replicate (nat (1 + s)) (spaces (2 + s) @ [STEM_CHAR]), r2))"

text \<open>A generator's lines with the kind that was drawn.\<close>

definition with_kind ::
  "string \<Rightarrow> error + (string list \<times> rng) \<Rightarrow> error + ((string list \<times> string) \<times> rng)" where
  "with_kind kind res =
     (case res of Inl e \<Rightarrow> Inl e | Inr (lines, r) \<Rightarrow> Inr ((lines, kind), r))"

definition random_flower ::
  "bool \<Rightarrow> int \<Rightarrow> rng \<Rightarrow> error + ((string list \<times> string) \<times> rng)" where
  "random_flower nt sz rng =
     (let (kind, r) = choice [''round'', ''star'', ''tulip'', ''sunflower'', ''cherry''] rng
      in if kind = ''round'' then with_kind kind (make_round_flower sz r)
         else if kind = ''star'' then with_kind kind (make_star_flower sz r)
         else if kind = ''sunflower'' then with_kind kind (make_sunflower sz r)
         else if kind = ''cherry'' then with_kind kind (make_cherry_flower nt sz r)
         else with_kind kind (make_tulip sz r))"

text \<open>\<open>for layer in range(3): for row in range(width)\<close>.\<close>

definition pine_foliage :: "int \<Rightarrow> string list" where
  "pine_foliage s =
     concat (map (\<lambda>layer.
        map (\<lambda>row. spaces ((4 * s + 2) - row) @ str_mul ''^'' (1 + 2 * row))
          [0 .. (1 + 2 * (layer + s)) - 1])
       [0, 1, 2])"

definition make_pine_tree :: "int \<Rightarrow> rng \<Rightarrow> error + (string list \<times> rng)" where
  "make_pine_tree sz r =
     (let s = max 1 sz;
          lines = pine_foliage s;
          trunk_w = 1 + s;
          trunk_pad = (4 * s + 2) - trunk_w div 2
      in Inr (lines @ replicate (nat (1 + s)) (spaces trunk_pad @ str_mul ''|'' trunk_w), r))"

text \<open>The canopy of the broad tree: the same scan with no noise and one foliage character.\<close>

definition broad_rows :: "int \<Rightarrow> string list" where
  "broad_rows radius =
     map (\<lambda>y. rstrip (map (\<lambda>x.
            if (rat_of_int x / 2) * (rat_of_int x / 2) + rat_of_int (y * y)
                 \<le> (rat_of_int radius + 2 / 10) ^ 2
            then CHR ''#'' else sp)
          [- 2 * radius .. 2 * radius]))
       [- radius .. radius]"

definition make_broad_tree :: "int \<Rightarrow> rng \<Rightarrow> error + (string list \<times> rng)" where
  "make_broad_tree sz r =
     (let radius = 2 + sz;
          lines = broad_rows radius;
          trunk_w = 1 + sz * 2
      in case lines of
           [] \<Rightarrow> Inl IndexError
         | row0 # _ \<Rightarrow>
             (let trunk_col = max 0 (int (length row0) div 2 - trunk_w div 2)
              in Inr (lines @ replicate (nat (1 + sz)) (spaces trunk_col @ str_mul ''|'' trunk_w),
                      r)))"

definition art :: "string list" where
  "art =
    [''           '' @ [bsl] @ [bsl] @ ''/ |    |/'',
     ''        '' @ [bsl] @ [bsl] @ ''/ / '' @ [bsl] @ [bsl] @ ''||/  /_/___/_'',
     ''         '' @ [bsl] @ [bsl] @ ''/   |/ '' @ [bsl] @ [bsl] @ ''/'',
     ''    _'' @ [bsl] @ ''__'' @ [bsl] @ ''_'' @ [bsl] @ ''   |  /_____/ _'',
     ''           '' @ [bsl] @ ''  | /          /'',
     ''  __ _-----`  |{,-----------~'',
     ''            '' @ [bsl] @ '' }{'',
     ''             }{{'',
     ''             }}{'',
     ''             {{{}'',
     ''       , -=-~{ .-^- _'']"

definition patterns :: "string list" where
  "patterns = [[bsl] @ ''/'', [bsl] @ ''/ '' @ [bsl] @ ''/'', '' '' @ [bsl] @ ''/ '' @ [bsl] @ ''/'']"

text \<open>The loop \<open>for r in range(canopy_extra_rows)\<close>, over the values of \<open>r\<close> still to come.\<close>

fun canopy_rows :: "int \<Rightarrow> int list \<Rightarrow> rng \<Rightarrow> error + (string list \<times> rng)" where
  "canopy_rows canopy_variation [] rng = Inr ([], rng)"
| "canopy_rows canopy_variation (r # rs) rng =
     (let (pat, r1) = choice patterns rng
      in case randint 0 canopy_variation r1 of
           Inl e \<Rightarrow> Inl e
         | Inr (jitter, r2) \<Rightarrow>
             (let prefix_spaces = max 0 (6 - r) + jitter;
                  line = spaces prefix_spaces @ str_mul pat (1 + (r mod (1 + canopy_variation)))
              in case canopy_rows canopy_variation rs r2 of
                   Inl e \<Rightarrow> Inl e
                 | Inr (lines, r3) \<Rightarrow> Inr (line # lines, r3)))"

definition make_stylized_tree :: "int \<Rightarrow> rng \<Rightarrow> error + (string list \<times> rng)" where
  "make_stylized_tree sz rng =
     (let s = max 1 sz;
          canopy_extra_rows = s * 2;
          canopy_variation = max 1 s
      in case canopy_rows canopy_variation [0 .. canopy_extra_rows - 1] rng of
           Inl e \<Rightarrow> Inl e
         | Inr (canopy, r1) \<Rightarrow>
             (let lines = canopy @ art;
                  trunk_w = 1 + s * 2;
                  trunk_h = 2 + s;
                  final_width = max_default trunk_w (map (\<lambda>ln. int (visible_len ln)) lines);
                  trunk_col = max 0 (final_width div 2 - trunk_w div 2);
                  lines = (if 3 \<le> s
                           then lines @ [spaces (max 0 (trunk_col - 2)) @ str_mul ''~'' (trunk_w + 4)]
                           else lines)
              in Inr (lines @ replicate (nat trunk_h) (spaces trunk_col @ str_mul ''|'' trunk_w),
                      r1)))"

text \<open>\<open>ln.replace("#", c)\<close> for a single character \<open>c\<close>.\<close>

definition replace_hash :: "char \<Rightarrow> string \<Rightarrow> string" where
  "replace_hash c line = map (\<lambda>x. if x = CHR ''#'' then c else x) line"

definition random_tree ::
  "bool \<Rightarrow> int \<Rightarrow> rng \<Rightarrow> error + ((string list \<times> string) \<times> rng)" where
  "random_tree nt sz rng =
     (let (kind, r) = choice [''pine'', ''broad'', ''bonsai'', ''cherry'', ''stylized''] rng
      in if kind = ''pine'' then with_kind kind (make_pine_tree sz r)
         else if kind = ''bonsai'' then with_kind kind (make_broad_tree (max 1 (sz - 1)) r)
         else if kind = ''cherry'' then
           (case make_broad_tree (sz + 1) r of
              Inl e \<Rightarrow> Inl e
            | Inr (canopy, r') \<Rightarrow>
                Inr ((map (replace_hash (if \<not> nt then blossom1 else CHR ''o'')) canopy, kind), r'))
         else if kind = ''stylized'' then with_kind kind (make_stylized_tree (sz + 1) r)
         else with_kind kind (make_broad_tree sz r))"

section \<open>Shape generators of garden.py\<close>

text \<open>
  garden.py has three centre characters, draws the stem character of every flower from
  \<open>STEM_CHARS\<close>, gives the pine a narrower trunk and the broad tree a trunk of one bar, and
  has no stylized tree. The petal characters, the scan of the round flower, the foliage of
  the pine and the canopy of the broad tree are the same as in flowers.py.
\<close>

definition g_CENTER_CHARS :: string where "g_CENTER_CHARS = ''@*O''"
definition STEM_CHARS :: string where "STEM_CHARS = ''|!il''"

definition g_make_round_flower :: "int \<Rightarrow> rng \<Rightarrow> error + (string list \<times> rng)" where
  "g_make_round_flower sz r =
     (let radius = 1 + sz;
          (petal, r1) = choice PETAL_CHARS r;
          (center, r2) = choice g_CENTER_CHARS r1;
          (lines, r3) = round_rows radius petal center [- radius .. radius] r2
      in case randint (1 + sz) (2 + 2 * sz) r3 of
           Inl e \<Rightarrow> Inl e
         | Inr (stem_height, r4) \<Rightarrow>
             (case lines of
                [] \<Rightarrow> Inl IndexError
              | row0 # _ \<Rightarrow>
                  (let stem_col = int (length row0) div 2;
                       (stem_char, r5) = choice STEM_CHARS r4
                   in Inr (lines @ replicate (nat stem_height) (spaces stem_col @ [stem_char]),
                           r5))))"

definition g_make_star_flower :: "int \<Rightarrow> rng \<Rightarrow> error + (string list \<times> rng)" where
  "g_make_star_flower sz r =
     (let (petal, r1) = choice PETAL_CHARS r;
          (center, r2) = choice g_CENTER_CHARS r1;
          s = sz;
          lines =
            [spaces (2 * s) @ [petal],
             spaces s @ [petal] @ spaces (2 * s - 1) @ [petal],
             [petal] @ spaces (4 * s - 1) @ [petal],
             spaces s @ [petal] @ spaces (2 * s - 1) @ [petal],
             spaces (2 * s) @ [center]];
          (stem, r3) = choice STEM_CHARS r2
      in case randint 0 s r3 of
           Inl e \<Rightarrow> Inl e
         | Inr (k, r4) \<Rightarrow>
             Inr (lines @ replicate (nat (1 + s + k)) (spaces (2 * s) @ [stem]), r4))"

definition g_make_tulip :: "int \<Rightarrow> rng \<Rightarrow> error + (string list \<times> rng)" where
  "g_make_tulip sz r =
     (let (petal, r1) = choice PETAL_CHARS r;
          (center, r2) = choice g_CENTER_CHARS r1;
          s = sz;
          lines =
            [spaces (1 + s) @ [petal] @ spaces s @ [petal],
             spaces s @ [petal] @ spaces (1 + s) @ [center] @ spaces s @ [petal],
             [petal] @ spaces (3 + s) @ [petal]];
          (leaves, r3) = choice [''<>'', [CHR ''/'', bsl], ''()'', ''~~''] r2;
          lines = lines @ [spaces (1 + s) @ leaves];
          (stem_char, r4) = choice STEM_CHARS r3
      in case randint 0 2 r4 of
           Inl e \<Rightarrow> Inl e
         | Inr (k, r5) \<Rightarrow>
             Inr (lines @ replicate (nat (1 + s + k)) (spaces (2 + s) @ [stem_char]), r5))"

definition g_make_sunflower :: "int \<Rightarrow> rng \<Rightarrow> error + (string list \<times> rng)" where
  "g_make_sunflower sz r =
     (let (petal, r1) = choice ''0O*@'' r;
          (center, r2) = choice ''@0O'' r1;
          s = sz;
          lines =
            [spaces (2 + s) @ str_mul [petal] (3 + s),
             spaces (1 + s) @ [petal] @ spaces (1 + s) @ [center] @ spaces (1 + s) @ [petal],
             [petal] @ spaces (3 + s) @ [petal]];
          (stem_char, r3) = choice STEM_CHARS r2
      in Inr (lines @ replicate (nat (2 + s)) (spaces (2 + s) @ [stem_char]), r3))"

definition g_make_cherry_flower :: "bool \<Rightarrow> int \<Rightarrow> rng \<Rightarrow> error + (string list \<times> rng)" where
  "g_make_cherry_flower nt sz r =
     (let (petal, r1) =
            (if \<not> nt then choice [CHR ''o'', blossom1, blossom2] r else choice ''o*'' r);
          (center, r2) = choice ''.@'' r1;
          s = sz;
          lines =
            [spaces (1 + s) @ [petal] @ '' '' @ [petal],
             spaces s @ [petal] @ [center] @ [petal],
             [petal] @ spaces (1 + s) @ [petal]];
          (stem_char, r3) = choice STEM_CHARS r2
      in Inr (lines @ replicate (nat (1 + s)) (spaces (2 + s) @ [stem_char]), r3))"

definition g_random_flower ::
  "bool \<Rightarrow> int \<Rightarrow> rng \<Rightarrow> error + ((string list \<times> string) \<times> rng)" where
  "g_random_flower nt sz rng =
     (let (kind, r) = choice [''round'', ''star'', ''tulip'', ''sunflower'', ''cherry''] rng
      in if kind = ''round'' then with_kind kind (g_make_round_flower sz r)
         else if kind = ''star'' then with_kind kind (g_make_star_flower sz r)
         else if kind = ''sunflower'' then with_kind kind (g_make_sunflower sz r)
         else if kind = ''cherry'' then with_kind kind (g_make_cherry_flower nt sz r)
         else with_kind kind (g_make_tulip sz r))"

definition g_make_pine_tree :: "int \<Rightarrow> rng \<Rightarrow> error + (string list \<times> rng)" where
  "g_make_pine_tree sz r =
     (let s = max 1 sz;
          lines = pine_foliage s;
          trunk_w = 1 + (s div 2);
          trunk_pad = (4 * s + 2) - trunk_w div 2
      in Inr (lines @ replicate (nat (1 + s)) (spaces trunk_pad @ str_mul ''|'' trunk_w), r))"

definition g_make_broad_tree :: "int \<Rightarrow> rng \<Rightarrow> error + (string list \<times> rng)" where
  "g_make_broad_tree sz r =
     (let radius = 2 + sz;
          lines = broad_rows radius
      in case lines of
           [] \<Rightarrow> Inl IndexError
         | row0 # _ \<Rightarrow>
             (let trunk_col = int (length row0) div 2
              in Inr (lines @ replicate (nat (1 + sz)) (spaces trunk_col @ ''|''), r)))"

definition g_random_tree ::
  "bool \<Rightarrow> int \<Rightarrow> rng \<Rightarrow> error + ((string list \<times> string) \<times> rng)" where
  "g_random_tree nt sz rng =
     (let (kind, r) = choice [''pine'', ''broad'', ''bonsai'', ''cherry''] rng
      in if kind = ''pine'' then with_kind kind (g_make_pine_tree sz r)
         else if kind = ''bonsai'' then with_kind kind (g_make_broad_tree (max 1 (sz - 1)) r)
         else if kind = ''cherry'' then
           (case g_make_broad_tree (sz + 1) r of
              Inl e \<Rightarrow> Inl e
            | Inr (canopy, r') \<Rightarrow>
                Inr ((map (replace_hash (if \<not> nt then blossom1 else CHR ''o'')) canopy, kind), r'))
         else with_kind kind (g_make_broad_tree sz r))"




text \<open>A generator returned, and none of the rows it returned is empty.\<close>

definition no_empty_row :: "error + (string list \<times> rng) \<Rightarrow> bool" where
  "no_empty_row res =
     (case res of Inl e \<Rightarrow> False | Inr (lines, r) \<Rightarrow> list_all (\<lambda>row. row \<noteq> []) lines)"

section \<open>The program\<close>

text \<open>
  The parsed command line, and what the program reads from its environment: whether
  standard output is a terminal, the terminal width (if there is one), whether \<open>os.name\<close>
  is \<open>"nt"\<close>, and the random source that \<open>random.Random(None)\<close> seeds itself from. garden.py
  has no \<open>--no-unicode\<close>, and flowers.py parses it and never reads it.
\<close>

record args =
  arg_count :: int
  arg_size :: int
  arg_seed :: "int option"
  arg_trees :: int
  arg_color :: string
  arg_layout :: string
  arg_cols :: int
  arg_auto_fit :: bool
  arg_no_unicode :: bool

record env =
  stdout_isatty :: bool
  term_columns :: "int option"
  os_nt :: bool
  entropy :: rng

text \<open>
  The two loops of \<open>main\<close>, over the plants still to generate. \<open>new_random\<close> is
  \<open>random.Random(seed)\<close> for an integer seed, a fixed function of the seed that is taken
  as a parameter. Each plant draws its sub-seed from the master source, and is generated
  and colorized from a source of its own.
\<close>

fun gen_flowers ::
  "(int \<Rightarrow> rng) \<Rightarrow> bool \<Rightarrow> int \<Rightarrow> bool \<Rightarrow> nat \<Rightarrow> rng \<Rightarrow> error + (string list list \<times> rng)" where
  "gen_flowers new_random nt sz use_color 0 rng = Inr ([], rng)"
| "gen_flowers new_random nt sz use_color (Suc n) rng =
     (case randint 0 (2 ^ 31 - 1) rng of
        Inl e \<Rightarrow> Inl e
      | Inr (sub_seed, rng') \<Rightarrow>
          (case random_flower nt sz (new_random sub_seed) of
             Inl e \<Rightarrow> Inl e
           | Inr ((lines, kind), sub_rng) \<Rightarrow>
               (case gen_flowers new_random nt sz use_color n rng' of
                  Inl e \<Rightarrow> Inl e
                | Inr (plants, rng'') \<Rightarrow>
                    Inr (fst (colorize_lines lines (''flower_'' @ kind) use_color sub_rng) # plants,
                         rng''))))"

fun gen_trees ::
  "(int \<Rightarrow> rng) \<Rightarrow> bool \<Rightarrow> int \<Rightarrow> bool \<Rightarrow> nat \<Rightarrow> rng \<Rightarrow> error + (string list list \<times> rng)" where
  "gen_trees new_random nt sz use_color 0 rng = Inr ([], rng)"
| "gen_trees new_random nt sz use_color (Suc n) rng =
     (case randint 0 (2 ^ 31 - 1) rng of
        Inl e \<Rightarrow> Inl e
      | Inr (sub_seed, rng') \<Rightarrow>
          (case random_tree nt sz (new_random sub_seed) of
             Inl e \<Rightarrow> Inl e
           | Inr ((lines, kind), sub_rng) \<Rightarrow>
               (case gen_trees new_random nt sz use_color n rng' of
                  Inl e \<Rightarrow> Inl e
                | Inr (plants, rng'') \<Rightarrow>
                    Inr (fst (colorize_lines lines (''tree_'' @ kind) use_color sub_rng) # plants,
                         rng''))))"

text \<open>\<open>main\<close> gives what the run writes to standard output, or the exception it ends with.\<close>

definition main :: "(int \<Rightarrow> rng) \<Rightarrow> env \<Rightarrow> args \<Rightarrow> error + string" where
  "main new_random e a =
     (let rng = (case arg_seed a of None \<Rightarrow> entropy e | Some s \<Rightarrow> new_random s);
          use_color = (if arg_color a = ''on'' then True
                       else if arg_color a = ''off'' then False
                       else stdout_isatty e)
      in case gen_flowers new_random (os_nt e) (arg_size a) use_color (nat (arg_count a)) rng of
           Inl x \<Rightarrow> Inl x
         | Inr (flowers, rng1) \<Rightarrow>
             (case gen_trees new_random (os_nt e) (arg_size a) use_color (nat (arg_trees a)) rng1 of
                Inl x \<Rightarrow> Inl x
              | Inr (trees, rng2) \<Rightarrow>
                  print_garden (flowers @ trees) (arg_layout a) (max 1 (arg_cols a)) 1
                    (arg_auto_fit a) (term_columns e)))"

fun g_gen_flowers ::
  "(int \<Rightarrow> rng) \<Rightarrow> bool \<Rightarrow> int \<Rightarrow> bool \<Rightarrow> nat \<Rightarrow> rng \<Rightarrow> error + (string list list \<times> rng)" where
  "g_gen_flowers new_random nt sz use_color 0 rng = Inr ([], rng)"
| "g_gen_flowers new_random nt sz use_color (Suc n) rng =
     (case randint 0 (2 ^ 31 - 1) rng of
        Inl e \<Rightarrow> Inl e
      | Inr (sub_seed, rng') \<Rightarrow>
          (case g_random_flower nt sz (new_random sub_seed) of
             Inl e \<Rightarrow> Inl e
           | Inr ((lines, kind), sub_rng) \<Rightarrow>
               (case g_gen_flowers new_random nt sz use_color n rng' of
                  Inl e \<Rightarrow> Inl e
                | Inr (plants, rng'') \<Rightarrow>
                    Inr (fst (g_colorize_lines lines (''flower_'' @ kind) use_color sub_rng) # plants,
                         rng''))))"

fun g_gen_trees ::
  "(int \<Rightarrow> rng) \<Rightarrow> bool \<Rightarrow> int \<Rightarrow> bool \<Rightarrow> nat \<Rightarrow> rng \<Rightarrow> error + (string list list \<times> rng)" where
  "g_gen_trees new_random nt sz use_color 0 rng = Inr ([], rng)"
| "g_gen_trees new_random nt sz use_color (Suc n) rng =
     (case randint 0 (2 ^ 31 - 1) rng of
        Inl e \<Rightarrow> Inl e
      | Inr (sub_seed, rng') \<Rightarrow>
          (case g_random_tree nt sz (new_random sub_seed) of
             Inl e \<Rightarrow> Inl e
           | Inr ((lines, kind), sub_rng) \<Rightarrow>
               (case g_gen_trees new_random nt sz use_color n rng' of
                  Inl e \<Rightarrow> Inl e
                | Inr (plants, rng'') \<Rightarrow>
                    Inr (fst (g_colorize_lines lines (''tree_'' @ kind) use_color sub_rng) # plants,
                         rng''))))"

definition g_main :: "(int \<Rightarrow> rng) \<Rightarrow> env \<Rightarrow> args \<Rightarrow> error + string" where
  "g_main new_random e a =
     (let rng = (case arg_seed a of None \<Rightarrow> entropy e | Some s \<Rightarrow> new_random s);
          use_color = (if arg_color a = ''on'' then True
                       else if arg_color a = ''off'' then False
                       else stdout_isatty e)
      in case g_gen_flowers new_random (os_nt e) (arg_size a) use_color (nat (arg_count a)) rng of
           Inl x \<Rightarrow> Inl x
         | Inr (flowers, rng1) \<Rightarrow>
             (case g_gen_trees new_random (os_nt e) (arg_size a) use_color (nat (arg_trees a)) rng1 of
                Inl x \<Rightarrow> Inl x
              | Inr (trees, rng2) \<Rightarrow>
                  g_print_garden (flowers @ trees) (arg_layout a) (max 1 (arg_cols a)) 1
                    (arg_auto_fit a) (term_columns e)))"

section \<open>Stripping undoes colorization\<close>

lemma ansi_reset_eq: "ansi_reset = esc # ''[0m''"
  by (simp add: ansi_reset_def ANSI_def)

lemma ansi_get_code: "is_code (ansi_get c)"
  unfolding ansi_get_def ANSI_def is_code_def
  by (simp add: is_param_def)

lemma match_ansi_code:
  assumes "list_all is_param ps"
  shows "match_ansi (esc # CHR ''['' # ps @ CHR ''m'' # rest) = Some rest"
proof -
  have "\<not> is_param (CHR ''m'')" by (simp add: is_param_def)
  with assms have "dropWhile is_param (ps @ CHR ''m'' # rest) = CHR ''m'' # rest"
    by (induction ps) auto
  then show ?thesis by simp
qed

lemma strip_ansi_code: "is_code c \<Longrightarrow> strip_ansi (c @ s) = strip_ansi s"
  unfolding is_code_def using match_ansi_code by auto

lemma is_code_reset: "is_code ansi_reset"
  unfolding is_code_def ansi_reset_eq
  by (intro disjI2 exI [of _ "''0''"]) (simp add: is_param_def)

lemma strip_ansi_reset: "strip_ansi (ansi_reset @ s) = strip_ansi s"
  by (rule strip_ansi_code [OF is_code_reset])

lemma strip_ansi_char_reset: "strip_ansi (ch # ansi_reset @ s) = ch # strip_ansi s"
proof -
  have "match_ansi (ch # ansi_reset @ s) = None"
    by (simp add: ansi_reset_eq)
  then have "strip_ansi (ch # ansi_reset @ s) = ch # strip_ansi (ansi_reset @ s)"
    by simp
  then show ?thesis by (simp only: strip_ansi_reset)
qed

lemma strip_ansi_bars_reset:
  "list_all (\<lambda>c. c = bar) seg \<Longrightarrow> strip_ansi (seg @ ansi_reset @ s) = seg @ strip_ansi s"
proof (induction seg)
  case Nil
  then show ?case by (simp add: strip_ansi_reset)
next
  case (Cons a seg)
  then have "a = bar" by simp
  then have "match_ansi (a # seg @ ansi_reset @ s) = None"
    by (cases "seg @ ansi_reset @ s") auto
  with Cons show ?case by simp
qed

lemma strip_ansi_plain: "c \<noteq> esc \<Longrightarrow> strip_ansi (c # s) = c # strip_ansi s"
  by (cases s) auto

lemma strip_wrap_char: "strip_ansi (color_wrap [ch] c True @ out) = ch # strip_ansi out"
proof -
  have "strip_ansi (color_wrap [ch] c True @ out) = strip_ansi (ansi_get c @ (ch # ansi_reset @ out))"
    by (simp add: color_wrap_def)
  also have "\<dots> = strip_ansi (ch # ansi_reset @ out)"
    by (rule strip_ansi_code [OF ansi_get_code])
  finally show ?thesis by (simp only: strip_ansi_char_reset)
qed

lemma strip_wrap_bars:
  assumes "list_all (\<lambda>c. c = bar) seg"
  shows "strip_ansi (color_wrap seg c True @ out) = seg @ strip_ansi out"
proof -
  have "strip_ansi (color_wrap seg c True @ out) = strip_ansi (ansi_get c @ (seg @ ansi_reset @ out))"
    by (simp add: color_wrap_def)
  also have "\<dots> = strip_ansi (seg @ ansi_reset @ out)"
    by (rule strip_ansi_code [OF ansi_get_code])
  finally show ?thesis by (simp only: strip_ansi_bars_reset [OF assms])
qed

lemma strip_colorize_line: "strip_ansi (fst (colorize_line k line r)) = line"
proof (induction k line r rule: colorize_line.induct)
  case (1 k r)
  then show ?case by simp
next
  case (2 k ch rest r)
  show ?case
  proof (cases "ch = sp")
    case True
    with 2(1) show ?thesis by (simp add: split_beta strip_ansi_plain del: strip_ansi.simps)
  next
    case False
    note nsp = this
    show ?thesis
    proof (cases "ch = bar")
      case True
      have seg: "list_all (\<lambda>c. c = bar) (ch # takeWhile (\<lambda>c. c = bar) rest)"
        using True by (simp add: list_all_iff) (meson set_takeWhileD)
      from 2(2) [OF nsp True refl] 
      have ih: "strip_ansi (fst (colorize_line k (dropWhile (\<lambda>c. c = bar) rest) r)) = dropWhile (\<lambda>c. c = bar) rest"
        by simp
      show ?thesis using True nsp ih strip_wrap_bars [OF seg]
        by (simp add: split_beta Let_def del: strip_ansi.simps)
    next
      case False
      obtain c r1 where fc: "foliage_color k r = (c, r1)" by (cases "foliage_color k r")
      from 2(3) [OF nsp False fc [symmetric]] 
      have ih: "strip_ansi (fst (colorize_line k rest r1)) = rest" by simp
      show ?thesis using nsp False fc ih
        by (simp add: split_beta strip_wrap_char del: strip_ansi.simps)
    qed
  qed
qed

lemma strip_g_colorize_line: "strip_ansi (fst (g_colorize_line k line r)) = line"
proof (induction k line r rule: g_colorize_line.induct)
  case (1 k r)
  then show ?case by simp
next
  case (2 k ch rest r)
  show ?case
  proof (cases "ch = sp")
    case True
    with 2(1) show ?thesis by (simp add: split_beta strip_ansi_plain del: strip_ansi.simps)
  next
    case False
    obtain c r1 where fc: "g_char_color k r = (c, r1)" by (cases "g_char_color k r")
    from 2(2) [OF False fc [symmetric]]
    have ih: "strip_ansi (fst (g_colorize_line k rest r1)) = rest" by simp
    show ?thesis using False fc ih
      by (simp add: split_beta strip_wrap_char del: strip_ansi.simps)
  qed
qed


lemma strip_colorize_rows: "map strip_ansi (fst (colorize_rows k grid r)) = grid"
proof (induction grid arbitrary: r)
  case Nil
  then show ?case by simp
next
  case (Cons row grid)
  have "strip_ansi (fst (colorize_line k row r)) = row"
    by (rule strip_colorize_line)
  with Cons show ?case by (simp add: split_beta del: strip_ansi.simps)
qed

lemma strip_g_colorize_rows: "map strip_ansi (fst (g_colorize_rows k grid r)) = grid"
proof (induction grid arbitrary: r)
  case Nil
  then show ?case by simp
next
  case (Cons row grid)
  have "strip_ansi (fst (g_colorize_line k row r)) = row"
    by (rule strip_g_colorize_line)
  with Cons show ?case by (simp add: split_beta del: strip_ansi.simps)
qed

lemma map_plain: "list_all plain grid \<Longrightarrow> map strip_ansi grid = grid"
  by (induction grid) (simp_all add: plain_def del: strip_ansi.simps)

text \<open>
  Claim C9, as amended. With colorization enabled, stripping each colorized row gives the
  original row back character for character, for every grid; with colorization disabled
  the grid is returned as it is, so stripping gives it back when its rows carry no colour
  annotation. Both colorizers (flowers.py and garden.py).
\<close>

theorem colorize_strip_roundtrip:
  assumes "enabled \<or> list_all plain grid"
  shows "map strip_ansi (fst (colorize_lines grid kind enabled r)) = grid
       \<and> map strip_ansi (fst (g_colorize_lines grid kind enabled r)) = grid"
proof (cases enabled)
  case True
  then show ?thesis
    by (simp add: colorize_lines_def g_colorize_lines_def strip_colorize_rows
        strip_g_colorize_rows del: strip_ansi.simps)
next
  case False
  with assms have "list_all plain grid" by simp
  then have "map strip_ansi grid = grid" by (rule map_plain)
  with False show ?thesis
    by (simp add: colorize_lines_def g_colorize_lines_def del: strip_ansi.simps)
qed

theorem colorize_strip_roundtrip_witness:
  "list_all plain [''*|''] \<and>
   map strip_ansi (fst (colorize_lines [''*|''] ''flower_star'' False (sconst 0))) = [''*|''] \<and>
   map strip_ansi (fst (g_colorize_lines [''*|''] ''flower_star'' False (sconst 0))) = [''*|'']"
  using colorize_strip_roundtrip [of False "[''*|'']" "''flower_star''" "sconst 0"]
  by (simp add: plain_def)

text \<open>
  Claim C9 as stated fails with colorization disabled on a row that is itself a colour
  annotation: the row comes back unchanged and stripping empties it.
\<close>

theorem colorize_disabled_strip_counterexample:
  "map strip_ansi (fst (colorize_lines [esc # ''[0m''] ''flower_round'' False (sconst 0)))
     \<noteq> [esc # ''[0m'']"
  by (simp add: colorize_lines_def is_param_def)

lemma map_visible_len: "map visible_len grid = map length (map strip_ansi grid)"
  by (simp add: visible_len_def del: strip_ansi.simps)

text \<open>
  Claim C4, as amended. Colorization keeps the visible length of every row when it is
  disabled, and when it is enabled on a grid whose rows carry no colour annotation. Both
  colorizers.
\<close>

theorem colorize_visible_len:
  assumes "\<not> enabled \<or> list_all plain grid"
  shows "map visible_len (fst (colorize_lines grid kind enabled r)) = map visible_len grid
       \<and> map visible_len (fst (g_colorize_lines grid kind enabled r)) = map visible_len grid"
proof (cases enabled)
  case False
  then show ?thesis by (simp add: colorize_lines_def g_colorize_lines_def)
next
  case True
  with assms have "list_all plain grid" by simp
  then have p: "map strip_ansi grid = grid" by (rule map_plain)
  have "map visible_len (fst (colorize_rows kind grid r)) = map length grid"
    by (simp only: map_visible_len strip_colorize_rows)
  moreover have "map visible_len (fst (g_colorize_rows kind grid r)) = map length grid"
    by (simp only: map_visible_len strip_g_colorize_rows)
  moreover have "map visible_len grid = map length grid"
    by (simp only: map_visible_len p)
  ultimately show ?thesis using True
    by (simp add: colorize_lines_def g_colorize_lines_def)
qed

theorem colorize_visible_len_witness:
  "list_all plain [''*|''] \<and>
   map visible_len (fst (colorize_lines [''*|''] ''flower_star'' True (sconst 0))) = map visible_len [''*|''] \<and>
   map visible_len (fst (g_colorize_lines [''*|''] ''flower_star'' True (sconst 0))) = map visible_len [''*|'']"
  using colorize_visible_len [of True "[''*|'']" "''flower_star''" "sconst 0"]
  by (simp add: plain_def)

text \<open>
  Claim C4 as stated fails with colorization enabled on a row that is itself a colour
  annotation: its visible length is 0, and each of its four characters is wrapped and
  survives the stripping.
\<close>

theorem colorize_visible_len_counterexample:
  "map visible_len (fst (colorize_lines [esc # ''[0m''] ''flower_round'' True (sconst 0)))
     \<noteq> map visible_len [esc # ''[0m'']"
proof -
  have "map visible_len (fst (colorize_rows ''flower_round'' [esc # ''[0m''] (sconst 0))) = map length [esc # ''[0m'']"
    by (simp only: map_visible_len strip_colorize_rows)
  moreover have "map visible_len [esc # ''[0m''] = [0]"
    by (simp add: visible_len_def is_param_def)
  ultimately show ?thesis by (simp add: colorize_lines_def)
qed

section \<open>Stems, trunks and the bonsai\<close>

text \<open>
  In garden.py every character of a bonsai that is not a space is bright green, and the
  random source is left as it was.
\<close>

lemma g_bonsai_color: "g_char_color ''tree_bonsai'' r = (''bright_green'', r)"
  by (simp add: g_char_color_def startswith_def endswith_def)

lemma g_colorize_line_bonsai:
  "g_colorize_line ''tree_bonsai'' row r =
     (concat (map (\<lambda>ch. if ch = sp then [ch] else color_wrap [ch] ''bright_green'' True) row), r)"
  by (induction row) (simp_all add: g_bonsai_color)

text \<open>
  Claim C8 on flowers.py: the colorizer has no case for the bonsai, so a foliage character
  of a \<open>tree_bonsai\<close> takes the colour drawn from green and bright green: green at
  draw 0, bright green at draw 1.
\<close>

theorem colorize_bonsai_random_green:
  "fst (colorize_lines [''#''] ''tree_bonsai'' True (sconst 0)) = [esc # ''[32m#'' @ esc # ''[0m'']
   \<and> fst (colorize_lines [''#''] ''tree_bonsai'' True (sconst 1)) = [esc # ''[92m#'' @ esc # ''[0m'']"
  by (simp add: colorize_lines_def foliage_color_def startswith_def endswith_def choice_def
      color_wrap_def ansi_get_def ansi_reset_def ANSI_def)

text \<open>
  Claim C2 on garden.py: a bar is coloured like any other character, by a draw: the trunk
  of a pine is green at draw 0 and bright green at draw 1, never brown, and the stalk of a
  flower is bright green at draw 0.
\<close>

theorem g_colorize_bar_random:
  "fst (g_colorize_lines [''|''] ''tree_pine'' True (sconst 0)) = [esc # ''[32m|'' @ esc # ''[0m'']
   \<and> fst (g_colorize_lines [''|''] ''tree_pine'' True (sconst 1)) = [esc # ''[92m|'' @ esc # ''[0m'']
   \<and> fst (g_colorize_lines [''|''] ''flower_star'' True (sconst 0)) = [esc # ''[92m|'' @ esc # ''[0m'']"
  by (simp add: g_colorize_lines_def g_char_color_def startswith_def endswith_def choice_def
      color_wrap_def ansi_get_def ansi_reset_def ANSI_def)

text \<open>
  In flowers.py a maximal run of bars is wrapped once, in the colour of the category, and
  takes no draw: the line around it is colorized as if the run were not there.
\<close>

lemma colorize_line_bars:
  "colorize_line k (bar # replicate n bar @ post) r =
     (color_wrap (bar # replicate n bar @ takeWhile (\<lambda>c. c = bar) post) (stem_color k) True
        @ fst (colorize_line k (dropWhile (\<lambda>c. c = bar) post) r),
      snd (colorize_line k (dropWhile (\<lambda>c. c = bar) post) r))"
proof -
  have t: "takeWhile (\<lambda>c. c = bar) (replicate n bar @ post) = replicate n bar @ takeWhile (\<lambda>c. c = bar) post"
    by (induction n) simp_all
  have d: "dropWhile (\<lambda>c. c = bar) (replicate n bar @ post) = dropWhile (\<lambda>c. c = bar) post"
    by (induction n) simp_all
  show ?thesis
    by (simp add: t d stem_color_def split_beta Let_def)
qed

lemma colorize_line_append:
  "xs = [] \<or> last xs \<noteq> bar \<Longrightarrow>
   colorize_line k (xs @ ys) r =
     (fst (colorize_line k xs r) @ fst (colorize_line k ys (snd (colorize_line k xs r))),
      snd (colorize_line k ys (snd (colorize_line k xs r))))"
proof (induction k xs r rule: colorize_line.induct)
  case (1 k r)
  then show ?case by simp
next
  case (2 k ch rest r)
  have nb: "last (ch # rest) \<noteq> bar" using 2(4) by simp
  show ?case
  proof (cases "ch = sp")
    case True
    have "rest = [] \<or> last rest \<noteq> bar" using nb by (cases rest) auto
    from 2(1) [OF True this] True show ?thesis by (simp add: split_beta)
  next
    case False
    note nsp = this
    show ?thesis
    proof (cases "ch = bar")
      case True
      let ?d = "dropWhile (\<lambda>c. c = bar) rest"
      have rne: "rest \<noteq> []" using nb True by auto
      then have lr: "last rest \<noteq> bar" using nb by simp
      have "\<exists>x\<in>set rest. x \<noteq> bar" using rne lr last_in_set by blast
      then have t: "takeWhile (\<lambda>c. c = bar) (rest @ ys) = takeWhile (\<lambda>c. c = bar) rest"
        and d: "dropWhile (\<lambda>c. c = bar) (rest @ ys) = ?d @ ys"
        by (auto simp: takeWhile_append1 dropWhile_append1)
      have dne: "?d \<noteq> []" using \<open>\<exists>x\<in>set rest. x \<noteq> bar\<close> by (auto simp: dropWhile_eq_Nil_conv)
      have "last ?d = last rest"
        by (metis dne last_appendR takeWhile_dropWhile_id)
      then have "?d = [] \<or> last ?d \<noteq> bar" using lr by simp
      from 2(2) [OF nsp True refl this] True nsp show ?thesis
        by (simp add: split_beta Let_def t d)
    next
      case False
      obtain c r1 where fc: "foliage_color k r = (c, r1)" by (cases "foliage_color k r")
      have "rest = [] \<or> last rest \<noteq> bar" using nb by (cases rest) auto
      from 2(3) [OF nsp False refl fc [symmetric] this] nsp False fc show ?thesis
        by (simp add: split_beta)
    qed
  qed
qed

lemma colorize_stem_run:
  assumes "pre = [] \<or> last pre \<noteq> bar" and "post = [] \<or> hd post \<noteq> bar"
  shows "colorize_line k (pre @ replicate (Suc n) bar @ post) r =
     (fst (colorize_line k pre r) @ color_wrap (replicate (Suc n) bar) (stem_color k) True
        @ fst (colorize_line k post (snd (colorize_line k pre r))),
      snd (colorize_line k post (snd (colorize_line k pre r))))"
proof -
  from assms(2) have t: "takeWhile (\<lambda>c. c = bar) post = []" and d: "dropWhile (\<lambda>c. c = bar) post = post"
    by (cases post; simp)+
  have "colorize_line k (replicate (Suc n) bar @ post) r' =
     (color_wrap (replicate (Suc n) bar) (stem_color k) True @ fst (colorize_line k post r'),
      snd (colorize_line k post r'))" for r'
    using colorize_line_bars [of k n post r'] by (simp add: t d)
  then show ?thesis
    by (simp add: colorize_line_append [OF assms(1)] del: replicate_Suc)
qed

section \<open>Alignment and auto-fit\<close>

lemma spaces_replicate: "spaces n = replicate (nat n) sp"
  by (simp add: spaces_def str_mul_def)

lemma fold_max_ge: "a \<le> fold max xs (a::'a::linorder)"
  by (induction xs arbitrary: a) (auto intro: order_trans [OF max.cobounded2])

lemma fold_max_mem: "x \<in> set xs \<Longrightarrow> x \<le> fold max xs (a::'a::linorder)"
proof (induction xs arbitrary: a)
  case Nil
  then show ?case by simp
next
  case (Cons y ys)
  show ?case
  proof (cases "x = y")
    case True
    have "max y a \<le> fold max ys (max y a)" by (rule fold_max_ge)
    with True show ?thesis by (simp add: max.coboundedI1)
  next
    case False
    with Cons show ?thesis by simp
  qed
qed

lemma max_default_ge: "x \<in> set xs \<Longrightarrow> x \<le> max_default d xs"
  by (cases xs) (auto simp: max_default_def fold_max_ge fold_max_mem)

lemma height_le_max: "p \<in> set row \<Longrightarrow> int (length p) \<le> max_height row"
  by (auto simp: max_height_def intro!: max_default_ge)

text \<open>
  Bottom alignment in flowers.py: a block has the height of its row, its first lines are
  blank lines of the plant's width, and the plant's last line is the last line of the
  block, so the last lines of all plants of a row are joined into one output line.
\<close>

lemma pad_plant_eq:
  "pad_plant max_h p = replicate (nat max_h - length p) (spaces (plant_width p))
      @ map (\<lambda>ln. ln @ spaces (plant_width p - int (visible_len ln))) p"
proof -
  have "nat (max_h - int (length p)) = nat max_h - length p" by arith
  then show ?thesis by (simp add: pad_plant_def Let_def)
qed

lemma length_pad_plant:
  "p \<in> set row \<Longrightarrow> int (length (pad_plant (max_height row) p)) = max_height row"
  using height_le_max [of p row] by (simp add: pad_plant_def Let_def)

lemma length_g_pad_plant:
  "p \<in> set row \<Longrightarrow> int (length (g_pad_plant (max_height row) p)) = max_height row"
  using height_le_max [of p row] by (simp add: g_pad_plant_def Let_def)

lemma pad_plant_bottom:
  assumes "i < length p"
  shows "pad_plant max_h p ! (nat max_h - length p + i)
           = p ! i @ spaces (plant_width p - int (visible_len (p ! i)))"
  using assms by (simp add: pad_plant_eq nth_append)

lemma pad_plant_top:
  assumes "i < nat max_h - length p"
  shows "pad_plant max_h p ! i = spaces (plant_width p)"
  using assms by (simp add: pad_plant_eq nth_append)

lemma pad_plant_ground:
  assumes "p \<in> set row" and "p \<noteq> []"
  shows "pad_plant (max_height row) p ! (nat (max_height row) - 1)
           = last p @ spaces (plant_width p - int (visible_len (last p)))"
proof -
  from assms(2) have lt: "length p - 1 < length p" by (cases p) simp_all
  from height_le_max [OF assms(1)] have "length p \<le> nat (max_height row)" by arith
  with lt have "nat (max_height row) - length p + (length p - 1) = nat (max_height row) - 1"
    by arith
  with pad_plant_bottom [OF lt, of "max_height row"] assms(2)
  show ?thesis by (simp add: last_conv_nth)
qed

text \<open>
  Claim C1 on garden.py: the blank lines come after the plant's own lines, so the plants
  of a row are aligned at the top. With a plant of three lines and one of two, the last
  line of the second plant is on output line 1 and that of the first on output line 2;
  flowers.py puts both on line 2.
\<close>

theorem g_render_top_aligned:
  "g_render_horizontal [[''*'', ''|'', ''|''], [''@'', ''|'']] 2 1 = [''* @'', ''| |'', ''|'', '''']
   \<and> render_horizontal [[''*'', ''|'', ''|''], [''@'', ''|'']] 2 1 = [''*'', ''| @'', ''| |'', '''']"
  by code_simp


lemma render_row_ground:
  assumes "row \<noteq> []" and "list_all (\<lambda>p. p \<noteq> []) row"
  shows "render_row gap row ! (nat (max_height row) - 1)
           = rstrip (join (spaces gap)
               (map (\<lambda>p. last p @ spaces (plant_width p - int (visible_len (last p)))) row))"
proof -
  let ?H = "nat (max_height row)"
  obtain p where p: "p \<in> set row" using assms(1) by (cases row) auto
  with assms(2) have "p \<noteq> []" by (simp add: list_all_iff)
  with height_le_max [OF p] have pos: "0 < ?H" by (cases p) auto
  then have lt: "?H - 1 < ?H" by simp
  have m: "map (\<lambda>block. block ! (?H - 1)) (map (pad_plant (max_height row)) row)
         = map (\<lambda>p. last p @ spaces (plant_width p - int (visible_len (last p)))) row"
    using assms(2) pad_plant_ground [of _ row] by (auto simp: list_all_iff)
  have "render_row gap row ! (?H - 1)
      = rstrip (join (spaces gap) (map (\<lambda>block. block ! (?H - 1)) (map (pad_plant (max_height row)) row)))"
    using lt unfolding render_row_def join_rows_def
    by (simp add: nth_append del: map_map)
  then show ?thesis by (simp only: m)
qed

lemma max_default_nonneg: "(0::int) \<le> d \<Longrightarrow> list_all (\<lambda>x. 0 \<le> x) xs \<Longrightarrow> 0 \<le> max_default d xs"
proof (cases xs)
  case Nil
  assume "0 \<le> d"
  with Nil show ?thesis by (simp add: max_default_def)
next
  case (Cons x rest)
  assume "list_all (\<lambda>x. 0 \<le> x) xs"
  with Cons have "0 \<le> x" by simp
  also have "x \<le> fold max rest x" by (rule fold_max_ge)
  finally show ?thesis using Cons by (simp add: max_default_def)
qed

lemma plant_width_nonneg: "0 \<le> plant_width p"
  unfolding plant_width_def by (rule max_default_nonneg) (simp_all add: list_all_iff)

lemma max_plant_width_nonneg: "0 \<le> max_plant_width plants"
  unfolding max_plant_width_def
  by (rule max_default_nonneg) (simp_all add: list_all_iff plant_width_nonneg)

lemma auto_cols_divisor: "1 \<le> gap \<Longrightarrow> max_plant_width plants + gap \<noteq> 0"
  using max_plant_width_nonneg [of plants] by arith

lemma max_plant_width_global:
  "list_all (\<lambda>p. list_all (\<lambda>ln. int (visible_len ln) \<le> max_plant_width plants) p) plants"
proof -
  have "int (visible_len ln) \<le> max_plant_width plants" if "p \<in> set plants" and "ln \<in> set p" for p ln
  proof -
    from that(2) have "int (visible_len ln) \<le> plant_width p"
      unfolding plant_width_def by (intro max_default_ge) simp
    also from that(1) have "plant_width p \<le> max_plant_width plants"
      unfolding max_plant_width_def by (intro max_default_ge) simp
    finally show ?thesis .
  qed
  then show ?thesis by (simp add: list_all_iff)
qed

lemma max_default_Max: "max_default d xs = (if xs = [] then d else Max (set xs))"
proof (cases xs)
  case Nil
  then show ?thesis by (simp add: max_default_def)
next
  case (Cons x rest)
  have "Max (set (x # rest)) = fold max rest x" by (rule Max.set_eq_fold)
  with Cons show ?thesis by (simp add: max_default_def)
qed

lemma plant_width_Max:
  "plant_width p = (if p = [] then 0 else Max ((\<lambda>ln. int (visible_len ln)) ` set p))"
  by (simp add: plant_width_def max_default_Max)

lemma max_plant_width_Max:
  "max_plant_width plants = (if plants = [] then 1 else Max (plant_width ` set plants))"
  by (simp add: max_plant_width_def max_default_Max)

text \<open>
  Claim C5, as amended. With auto-fit in the horizontal layout, and the divisor
  \<open>max_plant_width + gap\<close> not zero, the column count handed to \<open>render_horizontal\<close> is
  \<open>max 1 ((term_width + gap) div (max_plant_width + gap))\<close>, which is at least 1. The
  terminal width is the one reported, or 80 when none is; the widest plant is the maximum,
  over all plants, of the maximum visible length of the plant's rows (0 for a plant with no
  rows), and 1 for no plants. The divisor is not zero for any gap of at least 1 (lemma
  \<open>auto_cols_divisor\<close>), and \<open>main\<close> passes the gap 1.
\<close>

theorem auto_fit_columns:
  assumes "max_plant_width plants + gap \<noteq> 0"
  shows "auto_cols plants (term_width columns) gap
           = Inr (max 1 ((term_width columns + gap) div (max_plant_width plants + gap)))
       \<and> 1 \<le> max 1 ((term_width columns + gap) div (max_plant_width plants + gap))
       \<and> print_garden plants ''horizontal'' cols gap True columns
           = Inr (written (render_horizontal plants
                (max 1 ((term_width columns + gap) div (max_plant_width plants + gap))) (gap * 2)))
       \<and> g_print_garden plants ''horizontal'' cols gap True columns
           = Inr (written (g_render_horizontal plants
                (max 1 ((term_width columns + gap) div (max_plant_width plants + gap))) (gap * 2)))
       \<and> term_width None = 80
       \<and> term_width (Some w) = w
       \<and> max_plant_width plants = (if plants = [] then 1 else Max (plant_width ` set plants))
       \<and> plant_width p = (if p = [] then 0 else Max ((\<lambda>ln. int (visible_len ln)) ` set p))"
  using assms plant_width_Max [of p] max_plant_width_Max [of plants]
  by (simp add: auto_cols_def print_garden_def g_print_garden_def term_width_def)

lemma max_plant_width_example: "max_plant_width [[''  *'', '' |'']] = 3"
  by (simp add: max_plant_width_def max_default_def plant_width_def visible_len_def)

theorem auto_fit_columns_witness:
  "max_plant_width [[''  *'', '' |'']] + 1 \<noteq> 0
   \<and> auto_cols [[''  *'', '' |'']] (term_width None) 1 = Inr 20
   \<and> auto_cols [[''  *'', '' |'']] (term_width (Some 7)) 1 = Inr 2"
  using auto_fit_columns [of "[[''  *'', '' |'']]" 1 None]
    auto_fit_columns [of "[[''  *'', '' |'']]" 1 "Some 7"]
  by (simp add: max_plant_width_example term_width_def)

text \<open>
  Claim C5 as stated fails where the divisor is zero: with one plant of one empty row and
  the gap 0, the widest plant is 0 wide and \<open>(term_w + gap) // (max_w + gap)\<close> raises
  \<open>ZeroDivisionError\<close>, in both files, so there is no column count.
\<close>

theorem auto_fit_zero_divisor_counterexample:
  "print_garden [['''']] ''horizontal'' 3 0 True None = Inl ZeroDivisionError
   \<and> g_print_garden [['''']] ''horizontal'' 3 0 True None = Inl ZeroDivisionError
   \<and> auto_cols [['''']] (term_width None) 0 = Inl ZeroDivisionError"
  by (simp add: print_garden_def g_print_garden_def auto_cols_def max_plant_width_def
      plant_width_def max_default_def visible_len_def)

section \<open>Every plant stands on a stem or trunk row\<close>

lemma randint_ok:
  assumes "a \<le> b"
  shows "\<exists>k. randint a b r = Inr (k, stl r) \<and> a \<le> k \<and> k \<le> b"
proof -
  have "0 < nat (b - a + 1)" using assms by simp
  then have "shd r mod nat (b - a + 1) < nat (b - a + 1)" by (rule mod_less_divisor)
  then have "a + int (shd r mod nat (b - a + 1)) \<le> b" by linarith
  with assms show ?thesis by (simp add: randint_def)
qed

lemma str_mul_single: "str_mul [c] n = replicate (nat n) c"
  by (simp add: str_mul_def)
























lemma canopy_rows_ok:
  "0 \<le> v \<Longrightarrow> \<exists>lines r'. canopy_rows v rs r = Inr (lines, r')"
proof (induction rs arbitrary: r)
  case Nil
  then show ?case by simp
next
  case (Cons x rs)
  let ?r1 = "snd (choice patterns r)"
  from Cons.prems randint_ok [of 0 v ?r1]
  obtain k where k: "randint 0 v ?r1 = Inr (k, stl ?r1)" by auto
  from Cons.IH [OF Cons.prems, of "stl ?r1"]
  obtain lines r' where "canopy_rows v rs (stl ?r1) = Inr (lines, r')" by auto
  with k show ?case by (simp add: split_beta Let_def)
qed

















section \<open>Which generators clamp the size\<close>

lemma str_mul_nonempty: "0 < n \<Longrightarrow> s \<noteq> [] \<Longrightarrow> str_mul s n \<noteq> []"
  by (cases "nat n") (auto simp: str_mul_def)

lemma pine_foliage_rows: "list_all (\<lambda>row. row \<noteq> []) (pine_foliage s)"
  by (auto simp: pine_foliage_def list_all_iff str_mul_single)

lemma make_pine_tree_rows: "no_empty_row (make_pine_tree sz r)"
  using pine_foliage_rows [of "max 1 sz"]
  by (auto simp: no_empty_row_def make_pine_tree_def Let_def list_all_iff str_mul_single)

lemma g_make_pine_tree_rows: "no_empty_row (g_make_pine_tree sz r)"
proof -
  have "0 < 1 + max 1 sz div 2" by (simp add: pos_imp_zdiv_nonneg_iff add_pos_nonneg)
  then have "str_mul ''|'' (1 + max 1 sz div 2) \<noteq> []" by (intro str_mul_nonempty) simp_all
  with pine_foliage_rows [of "max 1 sz"] show ?thesis
    by (auto simp: no_empty_row_def g_make_pine_tree_def Let_def list_all_iff)
qed

lemma canopy_rows_nonempty:
  "0 \<le> v \<Longrightarrow> list_all (\<lambda>x. 0 \<le> x) rs \<Longrightarrow> canopy_rows v rs r = Inr (lines, r')
     \<Longrightarrow> list_all (\<lambda>row. row \<noteq> []) lines"
proof (induction rs arbitrary: r lines r')
  case Nil
  then show ?case by simp
next
  case (Cons x rs)
  let ?r1 = "snd (choice patterns r)"
  let ?pat = "fst (choice patterns r)"
  from Cons.prems(1) randint_ok [of 0 v ?r1]
  obtain k where k: "randint 0 v ?r1 = Inr (k, stl ?r1)" by auto
  from canopy_rows_ok [OF Cons.prems(1), of rs "stl ?r1"]
  obtain ls r'' where rest: "canopy_rows v rs (stl ?r1) = Inr (ls, r'')" by auto
  from Cons.prems(2) have x: "0 \<le> x" and rs: "list_all (\<lambda>x. 0 \<le> x) rs" by simp_all
  have "shd r mod length patterns < length patterns" by (simp add: patterns_def)
  then have "patterns ! (shd r mod length patterns) \<in> set patterns" by (rule nth_mem)
  then have pat: "?pat \<noteq> []" by (auto simp: choice_def patterns_def)
  from x Cons.prems(1) have "0 \<le> x mod (1 + v)" by simp
  then have "0 < 1 + x mod (1 + v)" by simp
  then have "str_mul ?pat (1 + x mod (1 + v)) \<noteq> []" using pat by (rule str_mul_nonempty)
  moreover from Cons.IH [OF Cons.prems(1) rs rest] have "list_all (\<lambda>row. row \<noteq> []) ls" .
  ultimately show ?case using Cons.prems(3) k rest
    by (auto simp: split_beta Let_def)
qed

lemma art_rows: "list_all (\<lambda>row. row \<noteq> []) art"
  by (simp add: art_def)

lemma make_stylized_tree_rows: "no_empty_row (make_stylized_tree sz r)"
proof -
  let ?s = "max 1 sz"
  have v: "0 \<le> max 1 ?s" by simp
  from canopy_rows_ok [OF v, of "[0 .. ?s * 2 - 1]" r]
  obtain canopy r1 where c: "canopy_rows (max 1 ?s) [0 .. ?s * 2 - 1] r = Inr (canopy, r1)" by auto
  have "list_all (\<lambda>x. 0 \<le> x) [0 .. ?s * 2 - 1]" by (simp add: list_all_iff)
  from canopy_rows_nonempty [OF v this c] have cn: "list_all (\<lambda>row. row \<noteq> []) canopy" .
  have t: "str_mul ''|'' (1 + ?s * 2) \<noteq> []" by (rule str_mul_nonempty) simp_all
  have w: "str_mul ''~'' (1 + ?s * 2 + 4) \<noteq> []" by (rule str_mul_nonempty) simp_all
  from c cn art_rows t w show ?thesis
    by (simp add: no_empty_row_def make_stylized_tree_def Let_def list_all_iff ball_Un
        del: max.absorb1 max.absorb2 max.absorb3 max.absorb4)
qed

text \<open>
  Claim C7, as amended. The pine (both files) and the stylized tree clamp the size: their
  result for any integer size is their result for \<open>max 1 size\<close>, and for every integer
  size they return rows none of which is empty. The bonsai is the broad tree at
  \<open>max 1 (size - 1)\<close>.
\<close>

theorem clamping_generators:
  "make_pine_tree sz r = make_pine_tree (max 1 sz) r
   \<and> g_make_pine_tree sz r = g_make_pine_tree (max 1 sz) r
   \<and> make_stylized_tree sz r = make_stylized_tree (max 1 sz) r
   \<and> no_empty_row (make_pine_tree sz r)
   \<and> no_empty_row (g_make_pine_tree sz r)
   \<and> no_empty_row (make_stylized_tree sz r)
   \<and> (fst (choice [''pine'', ''broad'', ''bonsai'', ''cherry'', ''stylized''] r) = ''bonsai'' \<longrightarrow>
        random_tree nt sz r = with_kind ''bonsai'' (make_broad_tree (max 1 (sz - 1))
          (snd (choice [''pine'', ''broad'', ''bonsai'', ''cherry'', ''stylized''] r))))
   \<and> (fst (choice [''pine'', ''broad'', ''bonsai'', ''cherry''] r) = ''bonsai'' \<longrightarrow>
        g_random_tree nt sz r = with_kind ''bonsai'' (g_make_broad_tree (max 1 (sz - 1))
          (snd (choice [''pine'', ''broad'', ''bonsai'', ''cherry''] r))))"
  using make_pine_tree_rows [of sz r] g_make_pine_tree_rows [of sz r] make_stylized_tree_rows [of sz r]
  by (simp add: make_pine_tree_def g_make_pine_tree_def make_stylized_tree_def random_tree_def
      g_random_tree_def split_beta)

theorem clamping_generators_witness:
  "fst (choice [''pine'', ''broad'', ''bonsai'', ''cherry'', ''stylized''] (sconst 2)) = ''bonsai''
   \<and> fst (choice [''pine'', ''broad'', ''bonsai'', ''cherry''] (sconst 2)) = ''bonsai''
   \<and> random_tree False 0 (sconst 2) = with_kind ''bonsai'' (make_broad_tree 1 (sconst 2))
   \<and> g_random_tree False 0 (sconst 2) = with_kind ''bonsai'' (g_make_broad_tree 1 (sconst 2))
   \<and> make_pine_tree 0 (sconst 2) = make_pine_tree 1 (sconst 2)"
  using clamping_generators [of 0 "sconst 2" False]
  by (simp add: choice_def)

text \<open>
  Claim C7 as stated fails for the generators that use the size as it is given. The
  sunflower at size -3 has an empty first row, from \<open>" " * -1\<close> and a petal bar of length
  0, and no stalk; the star flower at size 0 is not the star flower at size 1 (its rows
  lose their spacing to \<open>" " * -1\<close>), and at size -1 it raises \<open>ValueError\<close>.
\<close>

theorem unclamped_generators_counterexample:
  "map_sum id fst (make_sunflower (- 3) (sconst 0)) = Inr ['''', ''0@0'', ''00'']
   \<and> map_sum id fst (make_star_flower 0 (sconst 0)) = Inr [''*'', ''**'', ''**'', ''**'', ''@'', ''|'']
   \<and> map_sum id fst (make_star_flower 1 (sconst 0))
        = Inr [''  *'', '' * *'', ''*   *'', '' * *'', ''  @'', ''  |'', ''  |'']
   \<and> map_sum id fst (make_star_flower (- 1) (sconst 0)) = Inl ValueError"
proof -
  have r2: "replicate 2 x = [x, x]" and r3: "replicate 3 x = [x, x, x]" for x :: "'a"
    by (simp_all add: numeral_2_eq_2 numeral_3_eq_3)
  show ?thesis
    by (simp add: make_sunflower_def make_star_flower_def choice_def randint_def spaces_def
        str_mul_def PETAL_CHARS_def CENTER_CHARS_def STEM_CHAR_def r2 r3)
qed

section \<open>The stalk of the round flower\<close>

lemma random_range: "0 \<le> fst (random r) \<and> fst (random r) < 1"
proof -
  have "shd r mod 2 ^ 53 < 2 ^ 53" by simp
  then have "(of_nat (shd r mod 2 ^ 53) :: rat) < of_nat (2 ^ 53)"
    by (simp only: of_nat_less_iff)
  then show ?thesis by (simp add: random_def)
qed

lemma round_row_length: "length (fst (round_row radius y p c xs r)) = length xs"
  by (induction xs arbitrary: r) (simp_all add: split_beta Let_def)

lemma round_row_append:
  "fst (round_row radius y p c (xs @ ys) r)
     = fst (round_row radius y p c xs r)
       @ fst (round_row radius y p c ys (snd (round_row radius y p c xs r)))"
  by (induction xs arbitrary: r) (simp_all add: split_beta Let_def)

text \<open>A cell of the top row whose column is one of the last two is never inside the circle.\<close>

lemma top_row_cell_outside:
  assumes "2 \<le> radius" and "2 * radius - 1 \<le> x" and "0 \<le> u" and "u < 1"
  shows "\<not> (rat_of_int x / 2) * (rat_of_int x / 2) + rat_of_int (- radius * - radius)
           \<le> (rat_of_int radius + 1 / 4 - u * (6 / 10)) ^ 2"
proof -
  let ?q = "rat_of_int radius" and ?x = "rat_of_int x"
  from assms(1) have q: "2 \<le> ?q" by simp
  from assms(2) have "rat_of_int (2 * radius - 1) \<le> ?x"
    by (simp only: of_int_le_iff)
  then have x: "2 * ?q - 1 \<le> ?x" by simp
  have t0: "0 \<le> ?q + 1 / 4 - u * (6 / 10)" using q assms(4) by simp
  have t1: "?q + 1 / 4 - u * (6 / 10) \<le> ?q + 1 / 4" using assms(3) by simp
  have "(?q + 1 / 4 - u * (6 / 10)) ^ 2 \<le> (?q + 1 / 4) ^ 2"
    by (rule power_mono [OF t1 t0])
  also have "(?q + 1 / 4) ^ 2 = ?q * ?q + ?q / 2 + 1 / 16"
    by (simp add: power2_eq_square algebra_simps)
  finally have up: "(?q + 1 / 4 - u * (6 / 10)) ^ 2 \<le> ?q * ?q + ?q / 2 + 1 / 16" .
  have "0 \<le> 2 * ?q - 1" using q by simp
  with x have "(2 * ?q - 1) * (2 * ?q - 1) \<le> ?x * ?x" by (intro mult_mono) simp_all
  then have a: "4 * (?q * ?q) - 4 * ?q + 1 \<le> ?x * ?x" by (simp add: algebra_simps)
  have b: "2 * ?q \<le> ?q * ?q" using q by (intro mult_right_mono) simp_all
  from a b q have "2 * ?q + 1 / 4 < ?x * ?x" by linarith
  then have "?q * ?q + ?q / 2 + 1 / 16 < (?x / 2) * (?x / 2) + ?q * ?q" by simp
  with up show ?thesis by simp
qed

lemma top_row_tail_blank:
  assumes "2 \<le> radius" and "list_all (\<lambda>x. 2 * radius - 1 \<le> x) xs"
  shows "fst (round_row radius (- radius) p c xs r) = replicate (length xs) sp"
  using assms(2)
proof (induction xs arbitrary: r)
  case Nil
  then show ?case by simp
next
  case (Cons x xs)
  then have x: "2 * radius - 1 \<le> x" and xs: "list_all (\<lambda>x. 2 * radius - 1 \<le> x) xs" by simp_all
  from random_range [of r] have "0 \<le> fst (random r)" "fst (random r) < 1" by simp_all
  from top_row_cell_outside [OF assms(1) x this] Cons.IH [OF xs]
  show ?case by (simp add: split_beta Let_def)
qed

lemma rstrip_blank_tail: "rstrip (s @ replicate n sp) = rstrip s"
proof -
  have "dropWhile is_space (replicate n sp @ t) = dropWhile is_space t" for t
    by (induction n) (simp_all add: is_space_def)
  then show ?thesis by (simp add: rstrip_def)
qed

lemma length_rstrip: "length (rstrip s) \<le> length s"
  by (simp add: rstrip_def) (metis length_dropWhile_le length_rev)

lemma upto_last_two: "i \<le> j - 1 \<Longrightarrow> [i .. j] = [i .. j - 2] @ [j - 1, j]"
proof -
  assume a: "i \<le> j - 1"
  then have "[i .. j] = [i .. j - 1] @ [j]" by (simp add: upto_rec2)
  also from a have "[i .. j - 1] = [i .. j - 1 - 1] @ [j - 1]" by (simp only: upto_rec2 if_True)
  finally show ?thesis by simp
qed

lemma top_row_short:
  assumes "2 \<le> radius"
  shows "int (length (rstrip (fst (round_row radius (- radius) p c [- 2 * radius .. 2 * radius] r))))
           \<le> 4 * radius - 1"
proof -
  let ?xs = "[- 2 * radius .. 2 * radius - 2]" and ?ys = "[2 * radius - 1, 2 * radius]"
  from assms have "[- 2 * radius .. 2 * radius] = ?xs @ ?ys" by (intro upto_last_two) simp
  moreover have "fst (round_row radius (- radius) p c ?ys r') = replicate (length ?ys) sp" for r'
    by (rule top_row_tail_blank [OF assms]) simp
  ultimately have "rstrip (fst (round_row radius (- radius) p c [- 2 * radius .. 2 * radius] r))
      = rstrip (fst (round_row radius (- radius) p c ?xs r))"
    by (simp only: round_row_append rstrip_blank_tail)
  moreover have "length (rstrip (fst (round_row radius (- radius) p c ?xs r))) \<le> length ?xs"
    using length_rstrip [of "fst (round_row radius (- radius) p c ?xs r)"]
    by (simp only: round_row_length)
  moreover from assms have "int (length ?xs) = 4 * radius - 1" by simp
  ultimately show ?thesis by (simp only:)
qed

text \<open>
  The round flower of flowers.py, for every size of at least 1 and every random source:
  the disc has \<open>2 * radius + 1\<close> rows, the stalk has between \<open>1 + size\<close> and
  \<open>2 + 2 * size\<close> rows, and the stalk's column is left of the column \<open>2 * radius\<close> of the
  disc's centre.
\<close>

lemma round_flower_stalk:
  assumes "1 \<le> sz"
  shows "\<exists>disc h col r'.
      make_round_flower sz r = Inr (disc @ replicate (nat h) (spaces col @ [STEM_CHAR]), r')
      \<and> int (length disc) = 2 * (1 + sz) + 1
      \<and> 1 + sz \<le> h \<and> h \<le> 2 + 2 * sz
      \<and> 0 \<le> col \<and> col < 2 * (1 + sz)"
proof -
  let ?R = "1 + sz"
  obtain petal r1 where c1: "choice PETAL_CHARS r = (petal, r1)" by (cases "choice PETAL_CHARS r")
  obtain center r2 where c2: "choice CENTER_CHARS r1 = (center, r2)" by (cases "choice CENTER_CHARS r1")
  obtain disc r3 where rr: "round_rows ?R petal center [- ?R .. ?R] r2 = (disc, r3)"
    by (cases "round_rows ?R petal center [- ?R .. ?R] r2")
  have len: "length (fst (round_rows ?R petal center ys r')) = length ys" for ys r'
    by (induction ys arbitrary: r') (simp_all add: split_beta)
  from len [of "[- ?R .. ?R]" r2] rr assms have ld: "int (length disc) = 2 * ?R + 1" by simp
  from assms have "[- ?R .. ?R] = - ?R # [- ?R + 1 .. ?R]" by (simp add: upto_rec1)
  with rr have "\<exists>rest. disc = rstrip (fst (round_row ?R (- ?R) petal center [- 2 * ?R .. 2 * ?R] r2)) # rest"
    by (auto simp: split_beta)
  then obtain row0 rest where l: "disc = row0 # rest"
    and row0: "row0 = rstrip (fst (round_row ?R (- ?R) petal center [- 2 * ?R .. 2 * ?R] r2))"
    by blast
  from assms have "2 \<le> ?R" by simp
  from top_row_short [OF this, of petal center r2] row0
  have "int (length row0) \<le> 4 * ?R - 1" by (simp only:)
  then have col: "int (length row0) div 2 < 2 * ?R" by linarith
  have col0: "0 \<le> int (length row0) div 2" by simp
  from assms randint_ok [of "1 + sz" "2 + 2 * sz" r3]
  obtain k where k: "randint (1 + sz) (2 + 2 * sz) r3 = Inr (k, stl r3)"
    and k1: "1 + sz \<le> k" and k2: "k \<le> 2 + 2 * sz"
    by auto
  have eq: "make_round_flower sz r
      = Inr (disc @ replicate (nat k) (spaces (int (length row0) div 2) @ [STEM_CHAR]), stl r3)"
    using c1 c2 rr k l by (simp add: make_round_flower_def Let_def)
  show ?thesis
  proof (intro exI conjI)
    show "make_round_flower sz r
      = Inr (disc @ replicate (nat k) (spaces (int (length row0) div 2) @ [STEM_CHAR]), stl r3)"
      by (rule eq)
  qed (rule ld k1 k2 col0 col)+
qed

text \<open>
  The same for the round flower of garden.py, whose stalk character is drawn:
  the disc has \<open>2 * radius + 1\<close> rows, the stalk has between \<open>1 + size\<close> and
  \<open>2 + 2 * size\<close> rows, and the stalk's column is left of the column \<open>2 * radius\<close> of the
  disc's centre.
\<close>

lemma g_round_flower_stalk:
  assumes "1 \<le> sz"
  shows "\<exists>disc h col stem r'.
      g_make_round_flower sz r = Inr (disc @ replicate (nat h) (spaces col @ [stem]), r')
      \<and> int (length disc) = 2 * (1 + sz) + 1
      \<and> 1 + sz \<le> h \<and> h \<le> 2 + 2 * sz
      \<and> 0 \<le> col \<and> col < 2 * (1 + sz)"
proof -
  let ?R = "1 + sz"
  obtain petal r1 where c1: "choice PETAL_CHARS r = (petal, r1)" by (cases "choice PETAL_CHARS r")
  obtain center r2 where c2: "choice g_CENTER_CHARS r1 = (center, r2)" by (cases "choice g_CENTER_CHARS r1")
  obtain disc r3 where rr: "round_rows ?R petal center [- ?R .. ?R] r2 = (disc, r3)"
    by (cases "round_rows ?R petal center [- ?R .. ?R] r2")
  have len: "length (fst (round_rows ?R petal center ys r')) = length ys" for ys r'
    by (induction ys arbitrary: r') (simp_all add: split_beta)
  from len [of "[- ?R .. ?R]" r2] rr assms have ld: "int (length disc) = 2 * ?R + 1" by simp
  from assms have "[- ?R .. ?R] = - ?R # [- ?R + 1 .. ?R]" by (simp add: upto_rec1)
  with rr have "\<exists>rest. disc = rstrip (fst (round_row ?R (- ?R) petal center [- 2 * ?R .. 2 * ?R] r2)) # rest"
    by (auto simp: split_beta)
  then obtain row0 rest where l: "disc = row0 # rest"
    and row0: "row0 = rstrip (fst (round_row ?R (- ?R) petal center [- 2 * ?R .. 2 * ?R] r2))"
    by blast
  from assms have "2 \<le> ?R" by simp
  from top_row_short [OF this, of petal center r2] row0
  have "int (length row0) \<le> 4 * ?R - 1" by (simp only:)
  then have col: "int (length row0) div 2 < 2 * ?R" by linarith
  have col0: "0 \<le> int (length row0) div 2" by simp
  from assms randint_ok [of "1 + sz" "2 + 2 * sz" r3]
  obtain k where k: "randint (1 + sz) (2 + 2 * sz) r3 = Inr (k, stl r3)"
    and k1: "1 + sz \<le> k" and k2: "k \<le> 2 + 2 * sz"
    by auto
  have eq: "g_make_round_flower sz r
      = Inr (disc @ replicate (nat k)
               (spaces (int (length row0) div 2) @ [fst (choice STEM_CHARS (stl r3))]),
             snd (choice STEM_CHARS (stl r3)))"
    using c1 c2 rr k l by (simp add: g_make_round_flower_def Let_def split_beta)
  show ?thesis
  proof (intro exI conjI)
    show "g_make_round_flower sz r
      = Inr (disc @ replicate (nat k)
               (spaces (int (length row0) div 2) @ [fst (choice STEM_CHARS (stl r3))]),
             snd (choice STEM_CHARS (stl r3)))"
      by (rule eq)
  qed (rule ld k1 k2 col0 col)+
qed


lemma upto_4: "[- 4 .. 4] = [- 4, - 3, - 2, - 1, 0, 1, 2, 3, (4::int)]"
  by (simp add: upto_rec1)

lemma upto_2: "[- 2 .. 2] = [- 2, - 1, 0, 1, (2::int)]"
  by (simp add: upto_rec1)

lemma random_zero: "random (sconst 0) = (0, sconst 0)"
  by (simp add: random_def)

lemma round_row_top:
  "round_row 2 (- 2) (CHR ''*'') (CHR ''@'') [- 4, - 3, - 2, - 1, 0, 1, 2, 3, 4] (sconst 0)
     = (''  *****  '', sconst 0)"
  by (simp add: random_zero power2_eq_square)

lemma round_row_bottom:
  "round_row 2 2 (CHR ''*'') (CHR ''@'') [- 4, - 3, - 2, - 1, 0, 1, 2, 3, 4] (sconst 0)
     = (''  *****  '', sconst 0)"
  by (simp add: random_zero power2_eq_square)

lemma round_row_middle:
  "y \<in> {- 1, 0, 1} \<Longrightarrow>
   round_row 2 y (CHR ''*'') (CHR ''@'') [- 4, - 3, - 2, - 1, 0, 1, 2, 3, 4] (sconst 0)
     = (''***@@@***'', sconst 0)"
  by (auto simp: random_zero power2_eq_square)

lemma rstrip_rows:
  "rstrip ''  *****  '' = ''  *****''" "rstrip ''***@@@***'' = ''***@@@***''"
  by (simp_all add: rstrip_def is_space_def)

lemma round_rows_zero:
  "round_rows 2 (CHR ''*'') (CHR ''@'') [- 2 .. 2] (sconst 0)
      = ([''  *****'', ''***@@@***'', ''***@@@***'', ''***@@@***'', ''  *****''], sconst 0)"
  by (simp add: upto_2 upto_4 round_row_top round_row_bottom round_row_middle rstrip_rows
      del: upto_rec_numeral round_row.simps)

text \<open>
  Claim C6 on both files, at size 1 with every draw 0 (no noise, where the floats are
  exact): the disc is nine columns wide with its centre in column 4, the top row is
  stripped to seven characters, and the stalk stands in column \<open>7 div 2 = 3\<close>.
\<close>

theorem round_flower_stalk_off_centre:
  "map_sum id fst (make_round_flower 1 (sconst 0))
     = Inr [''  *****'', ''***@@@***'', ''***@@@***'', ''***@@@***'', ''  *****'', ''   |'', ''   |'']
   \<and> map_sum id fst (g_make_round_flower 1 (sconst 0))
     = Inr [''  *****'', ''***@@@***'', ''***@@@***'', ''***@@@***'', ''  *****'', ''   |'', ''   |'']"
proof -
  have r2: "replicate 2 x = [x, x]" and r3: "replicate 3 x = [x, x, x]" for x :: "'a"
    by (simp_all add: numeral_2_eq_2 numeral_3_eq_3)
  have c: "choice PETAL_CHARS (sconst 0) = (CHR ''*'', sconst 0)"
    "choice CENTER_CHARS (sconst 0) = (CHR ''@'', sconst 0)"
    "choice g_CENTER_CHARS (sconst 0) = (CHR ''@'', sconst 0)"
    "choice STEM_CHARS (sconst 0) = (bar, sconst 0)"
    by (simp_all add: choice_def PETAL_CHARS_def CENTER_CHARS_def g_CENTER_CHARS_def STEM_CHARS_def)
  have k: "randint 2 4 (sconst 0) = Inr (2, sconst 0)"
    by (simp add: randint_def)
  show ?thesis
    by (simp add: make_round_flower_def g_make_round_flower_def c k round_rows_zero
        STEM_CHAR_def spaces_def str_mul_def r2 r3
        del: upto_rec_numeral round_row.simps round_rows.simps)
qed



section \<open>Determinism of a seeded run\<close>

text \<open>
  Claim C3. With a seed given, the colour forced on or off, and auto-fit off or the same
  terminal width, what a run writes (or the exception it ends with) is the same in every
  environment of the same platform: it does not depend on whether standard output is a
  terminal, on the terminal width, or on the entropy an unseeded source would take. Both
  programs. The platform flag \<open>os.name\<close> selects the cherry glyphs and is held fixed.
\<close>

theorem main_deterministic:
  assumes "arg_seed a = Some s"
    and "arg_color a = ''on'' \<or> arg_color a = ''off''"
    and "os_nt e1 = os_nt e2"
    and "\<not> arg_auto_fit a \<or> term_columns e1 = term_columns e2"
  shows "main new_random e1 a = main new_random e2 a
       \<and> g_main new_random e1 a = g_main new_random e2 a"
proof -
  have p: "print_garden ps (arg_layout a) c 1 (arg_auto_fit a) (term_columns e1)
         = print_garden ps (arg_layout a) c 1 (arg_auto_fit a) (term_columns e2)" for ps c
    using assms(4) by (auto simp: print_garden_def)
  have g: "g_print_garden ps (arg_layout a) c 1 (arg_auto_fit a) (term_columns e1)
         = g_print_garden ps (arg_layout a) c 1 (arg_auto_fit a) (term_columns e2)" for ps c
    using assms(4) by (auto simp: g_print_garden_def)
  from assms(2) have c: "(if arg_color a = ''on'' then True
       else if arg_color a = ''off'' then False else stdout_isatty e1)
     = (if arg_color a = ''on'' then True
       else if arg_color a = ''off'' then False else stdout_isatty e2)"
    by auto
  show ?thesis
    unfolding main_def g_main_def Let_def
    by (simp only: assms(1) assms(3) c p g option.case)
qed

theorem main_deterministic_witness:
  "main (\<lambda>s. sconst (nat s))
      \<lparr>stdout_isatty = True, term_columns = Some 120, os_nt = False, entropy = sconst 1\<rparr>
      \<lparr>arg_count = 2, arg_size = 1, arg_seed = Some 42, arg_trees = 1, arg_color = ''on'',
       arg_layout = ''horizontal'', arg_cols = 3, arg_auto_fit = False, arg_no_unicode = False\<rparr>
   = main (\<lambda>s. sconst (nat s))
      \<lparr>stdout_isatty = False, term_columns = None, os_nt = False, entropy = sconst 2\<rparr>
      \<lparr>arg_count = 2, arg_size = 1, arg_seed = Some 42, arg_trees = 1, arg_color = ''on'',
       arg_layout = ''horizontal'', arg_cols = 3, arg_auto_fit = False, arg_no_unicode = False\<rparr>"
  using main_deterministic [of
      "\<lparr>arg_count = 2, arg_size = 1, arg_seed = Some 42, arg_trees = 1, arg_color = ''on'',
       arg_layout = ''horizontal'', arg_cols = 3, arg_auto_fit = False, arg_no_unicode = False\<rparr>"
      42
      "\<lparr>stdout_isatty = True, term_columns = Some 120, os_nt = False, entropy = sconst 1\<rparr>"
      "\<lparr>stdout_isatty = False, term_columns = None, os_nt = False, entropy = sconst 2\<rparr>"
      "\<lambda>s. sconst (nat s)"]
  by simp

end
